theory Spec2Isabelle
  imports Complex_Main "HOL-Library.Sublist" "HOL-Library.Char_ord" "HOL-Library.List_Lexorder"
    "HOL-Library.Log_Nat"
begin

section \<open>Values and exceptions of the Python program\<close>

text \<open>
  The program (\<^verbatim>\<open>app.py\<close>, \<^verbatim>\<open>database.py\<close>) handles values parsed from JSON: request
  bodies and the bodies of the two external services. A parsed value is \<open>None\<close>, a
  \<open>bool\<close>, an \<open>int\<close>, a \<open>float\<close>, a \<open>str\<close>, a \<open>list\<close> or a \<open>dict\<close> with string keys.
  A dict is an association list in insertion order, looked up with \<open>map_of\<close>. A string
  is a list of bytes; a byte from 128 on belongs to a character outside ASCII.

  A \<open>float\<close> is a double: a finite one is given by its value, a rational number, and
  the others are the two infinities and NaN (\<^verbatim>\<open>json.loads\<close> reads \<^verbatim>\<open>1e999\<close> as infinity).
  The two zeros are not told apart.
\<close>

datatype py_float =
    Finite rat
  | PosInf
  | NegInf
  | NaN

datatype json =
    JNull
  | JBool bool
  | JNum int
  | JFloat py_float
  | JStr string
  | JArr "json list"
  | JObj "(string \<times> json) list"

text \<open>
  The exceptions that the modelled code can raise. \<open>RequestException\<close> stands for every
  exception of \<^verbatim>\<open>requests.exceptions\<close> (connection failure, \<open>HTTPError\<close> from
  \<^verbatim>\<open>raise_for_status\<close>, the JSON decoding error of \<^verbatim>\<open>response.json()\<close>);
  \<open>DatabaseError\<close> stands for the errors of the \<^verbatim>\<open>sqlite3\<close> module.
\<close>

datatype py_error =
    KeyError
  | IndexError
  | TypeError
  | AttributeError
  | OverflowError
  | ValueError
  | RequestException
  | DatabaseError

text \<open>
  A step that can raise is a value of \<open>py_error + 'a\<close>; \<open>and_then\<close> runs the next step
  on the result of the first, and an exception of the first step ends the sequence.
\<close>

definition and_then :: "py_error + 'a \<Rightarrow> ('a \<Rightarrow> py_error + 'b) \<Rightarrow> py_error + 'b" where
  "and_then m f = (case m of Inl e \<Rightarrow> Inl e | Inr x \<Rightarrow> f x)"

text \<open>\<^verbatim>\<open>x[key]\<close> with a string key.\<close>

fun getitem_key :: "json \<Rightarrow> string \<Rightarrow> py_error + json" where
  "getitem_key (JObj kvs) k = (case map_of kvs k of None \<Rightarrow> Inl KeyError | Some v \<Rightarrow> Inr v)"
| "getitem_key _ k = Inl TypeError"

text \<open>\<^verbatim>\<open>x[0]\<close>. A dict parsed from JSON has string keys only, so the key \<open>0\<close> is missing.\<close>

fun getitem_0 :: "json \<Rightarrow> py_error + json" where
  "getitem_0 (JArr []) = Inl IndexError"
| "getitem_0 (JArr (x # xs)) = Inr x"
| "getitem_0 (JStr []) = Inl IndexError"
| "getitem_0 (JStr (c # cs)) = Inr (JStr [c])"
| "getitem_0 (JObj kvs) = Inl KeyError"
| "getitem_0 _ = Inl TypeError"

text \<open>The elements a \<^verbatim>\<open>for\<close> loop visits: of a list, the keys of a dict, the characters of a string.\<close>

fun py_iter :: "json \<Rightarrow> py_error + json list" where
  "py_iter (JArr xs) = Inr xs"
| "py_iter (JObj kvs) = Inr (map (\<lambda>kv. JStr (fst kv)) kvs)"
| "py_iter (JStr s) = Inr (map (\<lambda>c. JStr [c]) s)"
| "py_iter _ = Inl TypeError"

text \<open>\<^verbatim>\<open>x[:5]\<close>: a list or a string can be sliced; any other value raises.\<close>

fun slice5 :: "json \<Rightarrow> py_error + json" where
  "slice5 (JArr xs) = Inr (JArr (take 5 xs))"
| "slice5 (JStr s) = Inr (JStr (take 5 s))"
| "slice5 _ = Inl TypeError"

text \<open>Truth value of a value in a condition.\<close>

fun truthy :: "json \<Rightarrow> bool" where
  "truthy JNull = False"
| "truthy (JBool b) = b"
| "truthy (JNum n) = (n \<noteq> 0)"
| "truthy (JFloat x) = (x \<noteq> Finite 0)"
| "truthy (JStr s) = (s \<noteq> [])"
| "truthy (JArr xs) = (xs \<noteq> [])"
| "truthy (JObj kvs) = (kvs \<noteq> [])"

text \<open>\<^verbatim>\<open>s in t\<close> on strings: \<open>s\<close> occurs in \<open>t\<close> as a contiguous piece.\<close>

fun str_contains :: "string \<Rightarrow> string \<Rightarrow> bool" where
  "str_contains s [] = (s = [])"
| "str_contains s (c # cs) = (take (length s) (c # cs) = s \<or> str_contains s cs)"

text \<open>\<^verbatim>\<open>key in x\<close> with a string key.\<close>

fun py_in :: "string \<Rightarrow> json \<Rightarrow> py_error + bool" where
  "py_in k (JObj kvs) = Inr (k \<in> fst ` set kvs)"
| "py_in k (JArr xs) = Inr (JStr k \<in> set xs)"
| "py_in k (JStr s) = Inr (str_contains k s)"
| "py_in k _ = Inl TypeError"

text \<open>\<^verbatim>\<open>d[key] = v\<close> on a dict.\<close>

fun setitem :: "(string \<times> json) list \<Rightarrow> string \<Rightarrow> json \<Rightarrow> (string \<times> json) list" where
  "setitem [] k v = [(k, v)]"
| "setitem ((k', v') # kvs) k v = (if k' = k then (k, v) # kvs else (k', v') # setitem kvs k v)"

text \<open>
  \<^verbatim>\<open>str.capitalize\<close> and \<^verbatim>\<open>str.lower\<close> on strings of ASCII characters: the first
  character in upper case, the others in lower case.
\<close>

definition ascii_uppercase :: string where
  "ascii_uppercase = ''ABCDEFGHIJKLMNOPQRSTUVWXYZ''"

definition ascii_lowercase :: string where
  "ascii_lowercase = ''abcdefghijklmnopqrstuvwxyz''"

definition to_upper :: "char \<Rightarrow> char" where
  "to_upper c = (case map_of (zip ascii_lowercase ascii_uppercase) c of Some u \<Rightarrow> u | None \<Rightarrow> c)"

definition to_lower :: "char \<Rightarrow> char" where
  "to_lower c = (case map_of (zip ascii_uppercase ascii_lowercase) c of Some l \<Rightarrow> l | None \<Rightarrow> c)"

fun capitalize :: "string \<Rightarrow> string" where
  "capitalize [] = []"
| "capitalize (c # cs) = to_upper c # map to_lower cs"

section \<open>The external services\<close>

text \<open>
  What \<^verbatim>\<open>requests.get\<close> gives: a transport failure (an exception), or a response with a
  status code and a body; the body is \<open>None\<close> when it is not JSON.
\<close>

datatype http_result =
    Failed
  | Response nat "json option"

text \<open>
  The two requests the program sends: the dictionary lookup of a word
  (\<^verbatim>\<open>https://api.dictionaryapi.dev/api/v2/entries/en/{word}\<close>) and the Datamuse query with
  its parameters \<open>sp\<close>, \<open>md\<close> and \<open>max\<close>.
\<close>

datatype request =
    DictionaryGet json
  | DatamuseGet string string nat

text \<open>
  The services are outside the program: a network is any function from its own state and
  a request to a result and a next state, so that the same request can be answered
  differently each time. The world also keeps the log of the requests sent so far, each
  with its result.
\<close>

type_synonym 'e network = "'e \<Rightarrow> request \<Rightarrow> http_result \<times> 'e"

record 'e world =
  env :: 'e
  log :: "(request \<times> http_result) list"

definition requests_get :: "'e network \<Rightarrow> request \<Rightarrow> 'e world \<Rightarrow> http_result \<times> 'e world" where
  "requests_get net rq w =
     (case net (env w) rq of
        (r, e') \<Rightarrow> (r, \<lparr>env = e', log = log w @ [(rq, r)]\<rparr>))"

text \<open>
  \<^verbatim>\<open>response.raise_for_status()\<close> followed by \<^verbatim>\<open>response.json()\<close>: a status from 400
  to 599 raises \<open>HTTPError\<close>, and a body that is not JSON raises the \<open>JSONDecodeError\<close> of
  \<^verbatim>\<open>requests.exceptions\<close>; both are \<open>RequestException\<close>s.
\<close>

fun response_json :: "http_result \<Rightarrow> py_error + json" where
  "response_json Failed = Inl RequestException"
| "response_json (Response st body) =
     (if 400 \<le> st \<and> st < 600 then Inl RequestException
      else case body of None \<Rightarrow> Inl RequestException | Some j \<Rightarrow> Inr j)"

section \<open>The dictionary lookup: \<^verbatim>\<open>get_word_details\<close>\<close>

definition NO_EXAMPLE :: string where
  "NO_EXAMPLE = ''No example sentence found.''"

text \<open>\<^verbatim>\<open>data['meanings'][0]['definitions'][0]['definition']\<close>\<close>

definition first_definition :: "json \<Rightarrow> py_error + json" where
  "first_definition data =
     and_then (getitem_key data ''meanings'') (\<lambda>ms.
     and_then (getitem_0 ms) (\<lambda>m.
     and_then (getitem_key m ''definitions'') (\<lambda>ds.
     and_then (getitem_0 ds) (\<lambda>d.
     getitem_key d ''definition''))))"

text \<open>
  The inner loop over the definitions of one meaning: the example of the first definition
  with \<^verbatim>\<open>'example' in definition\<close>, where the loop breaks; \<open>None\<close> when it runs to its end.
\<close>

fun scan_definitions :: "json list \<Rightarrow> py_error + json option" where
  "scan_definitions [] = Inr None"
| "scan_definitions (d # ds) =
     and_then (py_in ''example'' d) (\<lambda>has.
       if has then and_then (getitem_key d ''example'') (\<lambda>v. Inr (Some v))
       else scan_definitions ds)"

text \<open>
  The outer loop over the meanings, with the current value of the variable \<open>example\<close>.
  After each meaning the loop breaks when \<open>example\<close> differs from the default string.
\<close>

fun scan_meanings :: "json \<Rightarrow> json list \<Rightarrow> py_error + json" where
  "scan_meanings example [] = Inr example"
| "scan_meanings example (m # ms) =
     and_then (getitem_key m ''definitions'') (\<lambda>defs.
     and_then (py_iter defs) (\<lambda>ds.
     and_then (scan_definitions ds) (\<lambda>found.
       (let example' = (case found of None \<Rightarrow> example | Some v \<Rightarrow> v)
        in if example' \<noteq> JStr NO_EXAMPLE then Inr example' else scan_meanings example' ms))))"

text \<open>
  \<^verbatim>\<open>word.capitalize()\<close>: only a string has the method. What the library function makes
  of a string with a character outside ASCII (a byte from 128 on) is the parameter
  \<open>ucap\<close>.
\<close>

fun py_capitalize :: "(string \<Rightarrow> string) \<Rightarrow> json \<Rightarrow> py_error + json" where
  "py_capitalize ucap (JStr s) = Inr (JStr (if list_ex digit7 s then ucap s else capitalize s))"
| "py_capitalize ucap _ = Inl AttributeError"

text \<open>The body of the \<^verbatim>\<open>try\<close> block, from the result of \<^verbatim>\<open>requests.get\<close> on.\<close>

definition word_details_try :: "(string \<Rightarrow> string) \<Rightarrow> json \<Rightarrow> http_result \<Rightarrow> py_error + json" where
  "word_details_try ucap word r =
     and_then (response_json r) (\<lambda>j.
     and_then (getitem_0 j) (\<lambda>data.
     and_then (first_definition data) (\<lambda>meaning.
     and_then (getitem_key data ''meanings'') (\<lambda>ms.
     and_then (py_iter ms) (\<lambda>meanings.
     and_then (scan_meanings (JStr NO_EXAMPLE) meanings) (\<lambda>example.
     and_then (py_capitalize ucap word) (\<lambda>cw.
     Inr (JObj [(''word'', cw), (''meaning'', meaning), (''example'', example)]))))))))"

text \<open>
  The two \<^verbatim>\<open>except\<close> clauses: \<open>RequestException\<close>, \<open>KeyError\<close> and \<open>IndexError\<close> give
  \<open>None\<close>; any other exception leaves the function.
\<close>

definition word_details :: "(string \<Rightarrow> string) \<Rightarrow> json \<Rightarrow> http_result \<Rightarrow> py_error + json option" where
  "word_details ucap word r =
     (case word_details_try ucap word r of
        Inr d \<Rightarrow> Inr (Some d)
      | Inl RequestException \<Rightarrow> Inr None
      | Inl KeyError \<Rightarrow> Inr None
      | Inl IndexError \<Rightarrow> Inr None
      | Inl e \<Rightarrow> Inl e)"

definition get_word_details ::
  "(string \<Rightarrow> string) \<Rightarrow> 'e network \<Rightarrow> json \<Rightarrow> 'e world \<Rightarrow> (py_error + json option) \<times> 'e world" where
  "get_word_details ucap net word w =
     (case requests_get net (DictionaryGet word) w of (r, w') \<Rightarrow> (word_details ucap word r, w'))"

section \<open>HTTP responses of the application\<close>

text \<open>
  A route returns a status code with a JSON body (\<^verbatim>\<open>jsonify(...), code\<close>), or an
  exception leaves the view function, which the framework answers with status 500.
\<close>

datatype reply =
    Reply nat json
  | Unhandled py_error

fun status :: "reply \<Rightarrow> nat" where
  "status (Reply code body) = code"
| "status (Unhandled e) = 500"

definition auth_required :: reply where
  "auth_required = Reply 401 (JObj [(''error'', JStr ''Authentication required.'')])"

section \<open>The word-set build: \<^verbatim>\<open>get_words\<close>\<close>

text \<open>The parameters \<open>md\<close> and \<open>max\<close> of a level; an unknown level gets those of \<open>beginner\<close>.\<close>

definition difficulty_params :: "(string \<times> string \<times> nat) list" where
  "difficulty_params =
     [(''beginner'', ''f'', 1000), (''intermediate'', ''f'', 500), (''proficient'', ''f'', 100)]"

definition params_of :: "string \<Rightarrow> string \<times> nat" where
  "params_of level = (case map_of difficulty_params level of Some p \<Rightarrow> p | None \<Rightarrow> (''f'', 1000))"

definition fallback_words :: "(char \<times> string) list" where
  "fallback_words =
     [(CHR ''A'', ''Apple''), (CHR ''B'', ''Brave''), (CHR ''C'', ''Clever''), (CHR ''D'', ''Dream''),
      (CHR ''E'', ''Energy''), (CHR ''F'', ''Future''), (CHR ''G'', ''Grace''), (CHR ''H'', ''Happy''),
      (CHR ''I'', ''Imagine''), (CHR ''J'', ''Journey''), (CHR ''K'', ''Kind''), (CHR ''L'', ''Laugh''),
      (CHR ''M'', ''Magic''), (CHR ''N'', ''Noble''), (CHR ''O'', ''Open''), (CHR ''P'', ''Peace''),
      (CHR ''Q'', ''Quest''), (CHR ''R'', ''Rise''), (CHR ''S'', ''Smile''), (CHR ''T'', ''Trust''),
      (CHR ''U'', ''Unity''), (CHR ''V'', ''Value''), (CHR ''W'', ''Wish''), (CHR ''X'', ''Xenial''),
      (CHR ''Y'', ''Youth''), (CHR ''Z'', ''Zeal'')]"

text \<open>\<^verbatim>\<open>details['letter'] = letter\<close>; \<open>details\<close> is the dict built by \<open>get_word_details\<close>.\<close>

fun stamp :: "char \<Rightarrow> json \<Rightarrow> json" where
  "stamp letter (JObj kvs) = JObj (setitem kvs ''letter'' (JStr [letter]))"
| "stamp letter j = j"

text \<open>
  The loop over \<^verbatim>\<open>potential_words[:5]\<close>: look each candidate up until one lookup gives a
  record, which is stamped with the letter. The result is the record appended to the list,
  or \<open>None\<close> when \<open>word_found\<close> stays false.
\<close>

fun probe ::
  "(string \<Rightarrow> string) \<Rightarrow> 'e network \<Rightarrow> char \<Rightarrow> json list \<Rightarrow> 'e world \<Rightarrow> (py_error + json option) \<times> 'e world" where
  "probe ucap net letter [] w = (Inr None, w)"
| "probe ucap net letter (word_data # rest) w =
     (case getitem_key word_data ''word'' of
        Inl e \<Rightarrow> (Inl e, w)
      | Inr word \<Rightarrow>
          (case get_word_details ucap net word w of
             (Inl e, w') \<Rightarrow> (Inl e, w')
           | (Inr (Some details), w') \<Rightarrow> (Inr (Some (stamp letter details)), w')
           | (Inr None, w') \<Rightarrow> probe ucap net letter rest w'))"

text \<open>The body of the \<^verbatim>\<open>try\<close> block of one letter.\<close>

definition query_candidates ::
  "(string \<Rightarrow> string) \<Rightarrow> 'e network \<Rightarrow> string \<times> nat \<Rightarrow> char \<Rightarrow> 'e world \<Rightarrow> (py_error + json option) \<times> 'e world" where
  "query_candidates ucap net params letter w =
     (case requests_get net (DatamuseGet [to_lower letter, CHR ''*''] (fst params) (snd params)) w of
        (r, w1) \<Rightarrow>
          (case response_json r of
             Inl e \<Rightarrow> (Inl e, w1)
           | Inr potential_words \<Rightarrow>
               (if truthy potential_words then
                  (case and_then (slice5 potential_words) py_iter of
                     Inl e \<Rightarrow> (Inl e, w1)
                   | Inr cands \<Rightarrow> probe ucap net letter cands w1)
                else (Inr None, w1))))"

text \<open>The fallback of one letter, run when no word was found.\<close>

definition use_fallback ::
  "(string \<Rightarrow> string) \<Rightarrow> 'e network \<Rightarrow> char \<Rightarrow> 'e world \<Rightarrow> (py_error + json option) \<times> 'e world" where
  "use_fallback ucap net letter w =
     (case map_of fallback_words letter of
        None \<Rightarrow> (Inl KeyError, w)
      | Some fw \<Rightarrow>
          (case get_word_details ucap net (JStr fw) w of
             (Inl e, w') \<Rightarrow> (Inl e, w')
           | (Inr (Some details), w') \<Rightarrow> (Inr (Some (stamp letter details)), w')
           | (Inr None, w') \<Rightarrow> (Inr None, w')))"

text \<open>
  One turn of the loop over the letters: the \<^verbatim>\<open>try\<close> block, whose \<^verbatim>\<open>except\<close> clause
  catches \<open>RequestException\<close> only, then the fallback. The result is the record appended
  for the letter, if any.
\<close>

definition letter_step ::
  "(string \<Rightarrow> string) \<Rightarrow> 'e network \<Rightarrow> string \<times> nat \<Rightarrow> char \<Rightarrow> 'e world \<Rightarrow> (py_error + json option) \<times> 'e world" where
  "letter_step ucap net params letter w =
     (case query_candidates ucap net params letter w of
        (Inr (Some details), w1) \<Rightarrow> (Inr (Some details), w1)
      | (Inr None, w1) \<Rightarrow> use_fallback ucap net letter w1
      | (Inl RequestException, w1) \<Rightarrow> use_fallback ucap net letter w1
      | (Inl e, w1) \<Rightarrow> (Inl e, w1))"

fun words_loop ::
  "(string \<Rightarrow> string) \<Rightarrow> 'e network \<Rightarrow> string \<times> nat \<Rightarrow> string \<Rightarrow> json list \<Rightarrow> 'e world \<Rightarrow> (py_error + json list) \<times> 'e world" where
  "words_loop ucap net params [] words_list w = (Inr words_list, w)"
| "words_loop ucap net params (letter # letters) words_list w =
     (case letter_step ucap net params letter w of
        (Inl e, w') \<Rightarrow> (Inl e, w')
      | (Inr None, w') \<Rightarrow> words_loop ucap net params letters words_list w'
      | (Inr (Some details), w') \<Rightarrow> words_loop ucap net params letters (words_list @ [details]) w')"

text \<open>The route \<^verbatim>\<open>GET /api/words/<level>\<close>; \<open>user\<close> is the \<open>user_id\<close> of the session, if any.\<close>

definition get_words ::
  "(string \<Rightarrow> string) \<Rightarrow> 'e network \<Rightarrow> nat option \<Rightarrow> string \<Rightarrow> 'e world \<Rightarrow> reply \<times> 'e world" where
  "get_words ucap net user level w =
     (if user = None then (auth_required, w)
      else (case words_loop ucap net (params_of level) ascii_uppercase [] w of
              (Inl e, w') \<Rightarrow> (Unhandled e, w')
            | (Inr words_list, w') \<Rightarrow> (Reply 200 (JArr words_list), w')))"

section \<open>The database\<close>

text \<open>
  A value stored in a column, and the value a Python parameter is bound to: \<open>None\<close> is
  \<open>NULL\<close>, an \<open>int\<close> (a \<open>bool\<close> is one) is an \<open>INTEGER\<close> when it fits 64 bits, a
  \<open>float\<close> is a \<open>REAL\<close>, except NaN, which SQLite stores as \<open>NULL\<close>, a \<open>str\<close> is \<open>TEXT\<close>;
  a list or a dict cannot be bound. The file \<^verbatim>\<open>schema.sql\<close> is not part of the
  sources: the tables have the columns that the statements name, rows are kept in
  insertion order, and no constraint or column affinity of the schema is modelled.
\<close>

datatype sqlval =
    SNull
  | SInt int
  | SReal py_float
  | SText string

fun bind_param :: "json \<Rightarrow> py_error + sqlval" where
  "bind_param JNull = Inr SNull"
| "bind_param (JBool b) = Inr (SInt (if b then 1 else 0))"
| "bind_param (JNum n) =
     (if - (2 ^ 63) \<le> n \<and> n < 2 ^ 63 then Inr (SInt n) else Inl OverflowError)"
| "bind_param (JFloat x) = Inr (if x = NaN then SNull else SReal x)"
| "bind_param (JStr s) = Inr (SText s)"
| "bind_param (JArr xs) = Inl DatabaseError"
| "bind_param (JObj kvs) = Inl DatabaseError"

text \<open>The Python value of a column in a fetched row.\<close>

fun column_value :: "sqlval \<Rightarrow> json" where
  "column_value SNull = JNull"
| "column_value (SInt n) = JNum n"
| "column_value (SReal x) = JFloat x"
| "column_value (SText s) = JStr s"

text \<open>
  The comparison \<open>=\<close> of SQL between two stored values: never true of \<open>NULL\<close>, by value
  between an \<open>INTEGER\<close> and a \<open>REAL\<close>. SQLite has no NaN: it is \<open>NULL\<close> there.
\<close>

fun sql_eq :: "sqlval \<Rightarrow> sqlval \<Rightarrow> bool" where
  "sql_eq SNull v = False"
| "sql_eq v SNull = False"
| "sql_eq (SReal NaN) v = False"
| "sql_eq v (SReal NaN) = False"
| "sql_eq (SInt m) (SReal x) = (x = Finite (of_int m))"
| "sql_eq (SReal x) (SInt n) = (x = Finite (of_int n))"
| "sql_eq u v = (u = v)"

record user_row =
  u_id :: nat
  u_username :: sqlval
  u_password :: sqlval

record session_row =
  s_id :: nat
  s_user_id :: nat
  s_mode :: sqlval
  s_score_percent :: sqlval
  s_date :: string

record word_row =
  w_session_id :: nat
  w_letter :: sqlval
  w_word_text :: sqlval
  w_meaning :: sqlval
  w_example :: sqlval

text \<open>
  The column \<open>quiz_data\<close> holds the text \<^verbatim>\<open>json.dumps(quiz)\<close> and is read with
  \<^verbatim>\<open>json.loads\<close>; both are library functions, and the text is represented by the value
  that it encodes.
\<close>

record quiz_row =
  q_session_id :: nat
  q_quiz_data :: json

record db =
  users :: "user_row list"
  sessions :: "session_row list"
  words :: "word_row list"
  quizzes :: "quiz_row list"

text \<open>
  A connection (\<^verbatim>\<open>get_db\<close>) is opened for one request and closed when the request ends
  (\<^verbatim>\<open>close_db\<close>, registered with \<^verbatim>\<open>teardown_appcontext\<close>). Statements change the view of
  the connection; \<^verbatim>\<open>commit\<close> writes the view to the store; closing without a commit
  drops what the view holds.
\<close>

record conn =
  committed :: db
  view :: db

definition get_db :: "db \<Rightarrow> conn" where
  "get_db store = \<lparr>committed = store, view = store\<rparr>"

definition commit :: "conn \<Rightarrow> conn" where
  "commit c = c\<lparr>committed := view c\<rparr>"

definition close_db :: "conn \<Rightarrow> db" where
  "close_db c = committed c"

text \<open>The row id given to an inserted row (\<^verbatim>\<open>cursor.lastrowid\<close>): one more than the largest.\<close>

definition next_rowid :: "nat list \<Rightarrow> nat" where
  "next_rowid ids = Suc (fold max ids 0)"

subsection \<open>\<^verbatim>\<open>save_session_data\<close>\<close>

text \<open>A list comprehension: the first exception ends it.\<close>

fun map_raising :: "('a \<Rightarrow> py_error + 'b) \<Rightarrow> 'a list \<Rightarrow> py_error + 'b list" where
  "map_raising f [] = Inr []"
| "map_raising f (x # xs) =
     and_then (f x) (\<lambda>y. and_then (map_raising f xs) (\<lambda>ys. Inr (y # ys)))"

text \<open>\<^verbatim>\<open>(session_id, w['letter'], w['word'], w['meaning'], w['example'])\<close>\<close>

definition word_tuple :: "json \<Rightarrow> py_error + json \<times> json \<times> json \<times> json" where
  "word_tuple w =
     and_then (getitem_key w ''letter'') (\<lambda>l.
     and_then (getitem_key w ''word'') (\<lambda>wd.
     and_then (getitem_key w ''meaning'') (\<lambda>m.
     and_then (getitem_key w ''example'') (\<lambda>ex.
     Inr (l, wd, m, ex)))))"

definition bind_word :: "nat \<Rightarrow> json \<times> json \<times> json \<times> json \<Rightarrow> py_error + word_row" where
  "bind_word session_id t =
     (case t of (l, wd, m, ex) \<Rightarrow>
        and_then (bind_param l) (\<lambda>l'.
        and_then (bind_param wd) (\<lambda>wd'.
        and_then (bind_param m) (\<lambda>m'.
        and_then (bind_param ex) (\<lambda>ex'.
        Inr \<lparr>w_session_id = session_id, w_letter = l', w_word_text = wd',
             w_meaning = m', w_example = ex'\<rparr>)))))"

text \<open>\<^verbatim>\<open>cursor.executemany\<close>: one insertion per tuple; the rows before a failing one stay in the view.\<close>

fun executemany :: "nat \<Rightarrow> (json \<times> json \<times> json \<times> json) list \<Rightarrow> conn \<Rightarrow> (py_error + unit) \<times> conn" where
  "executemany session_id [] c = (Inr (), c)"
| "executemany session_id (t # ts) c =
     (case bind_word session_id t of
        Inl e \<Rightarrow> (Inl e, c)
      | Inr row \<Rightarrow> executemany session_id ts (c\<lparr>view := (view c)\<lparr>words := words (view c) @ [row]\<rparr>\<rparr>))"

text \<open>The three parts of \<^verbatim>\<open>save_session_data\<close>, in the order of the source; \<open>now\<close> is \<open>CURRENT_TIMESTAMP\<close>.\<close>

definition insert_header :: "nat \<Rightarrow> json \<Rightarrow> string \<Rightarrow> conn \<Rightarrow> (py_error + nat) \<times> conn" where
  "insert_header user_id session_data now c =
     (case and_then (getitem_key session_data ''mode'') (\<lambda>mode.
           and_then (getitem_key session_data ''scorePercent'') (\<lambda>score.
           and_then (bind_param mode) (\<lambda>mode'.
           and_then (bind_param score) (\<lambda>score'. Inr (mode', score'))))) of
        Inl e \<Rightarrow> (Inl e, c)
      | Inr (mode', score') \<Rightarrow>
          (let session_id = next_rowid (map s_id (sessions (view c)));
               row = \<lparr>s_id = session_id, s_user_id = user_id, s_mode = mode',
                      s_score_percent = score', s_date = now\<rparr>
           in (Inr session_id, c\<lparr>view := (view c)\<lparr>sessions := sessions (view c) @ [row]\<rparr>\<rparr>)))"

definition insert_words :: "nat \<Rightarrow> json \<Rightarrow> conn \<Rightarrow> (py_error + unit) \<times> conn" where
  "insert_words session_id session_data c =
     (case and_then (getitem_key session_data ''words'') (\<lambda>ws.
           and_then (py_iter ws) (map_raising word_tuple)) of
        Inl e \<Rightarrow> (Inl e, c)
      | Inr words_to_insert \<Rightarrow> executemany session_id words_to_insert c)"

definition insert_quiz :: "nat \<Rightarrow> json \<Rightarrow> conn \<Rightarrow> (py_error + unit) \<times> conn" where
  "insert_quiz session_id session_data c =
     (case getitem_key session_data ''quiz'' of
        Inl e \<Rightarrow> (Inl e, c)
      | Inr quiz \<Rightarrow>
          (Inr (), c\<lparr>view := (view c)\<lparr>quizzes := quizzes (view c) @
             [\<lparr>q_session_id = session_id, q_quiz_data = quiz\<rparr>]\<rparr>\<rparr>))"

definition save_session_data :: "nat \<Rightarrow> json \<Rightarrow> string \<Rightarrow> conn \<Rightarrow> (py_error + unit) \<times> conn" where
  "save_session_data user_id session_data now c =
     (case insert_header user_id session_data now c of
        (Inl e, c1) \<Rightarrow> (Inl e, c1)
      | (Inr session_id, c1) \<Rightarrow>
          (case insert_words session_id session_data c1 of
             (Inl e, c2) \<Rightarrow> (Inl e, c2)
           | (Inr u, c2) \<Rightarrow>
               (case insert_quiz session_id session_data c2 of
                  (Inl e, c3) \<Rightarrow> (Inl e, c3)
                | (Inr u', c3) \<Rightarrow> (Inr (), commit c3))))"

text \<open>The route \<^verbatim>\<open>POST /api/sessions\<close>, from the opening of the connection to its closing.\<close>

definition save_session :: "db \<Rightarrow> nat option \<Rightarrow> json \<Rightarrow> string \<Rightarrow> reply \<times> db" where
  "save_session store user data now =
     (case user of
        None \<Rightarrow> (auth_required, store)
      | Some user_id \<Rightarrow>
          (case save_session_data user_id data now (get_db store) of
             (Inl e, c) \<Rightarrow> (Unhandled e, close_db c)
           | (Inr u, c) \<Rightarrow>
               (Reply 201 (JObj [(''message'', JStr ''Session saved successfully.'')]), close_db c)))"

subsection \<open>\<^verbatim>\<open>get_user_sessions\<close>\<close>

text \<open>
  The rows of the user, \<^verbatim>\<open>ORDER BY date DESC\<close>; \<open>date\<close> is a timestamp text
  \<^verbatim>\<open>YYYY-MM-DD HH:MM:SS\<close>, of which \<^verbatim>\<open>strftime("%Y-%m-%d %H:%M", date)\<close> is the first 16
  characters. Rows with equal dates come in the order of their insertion, as SQLite lists
  them.
\<close>

definition session_summary :: "session_row \<Rightarrow> json" where
  "session_summary r =
     JObj [(''id'', JNum (int (s_id r))), (''mode'', column_value (s_mode r)),
           (''score_percent'', column_value (s_score_percent r)),
           (''date_formatted'', JStr (take 16 (s_date r)))]"

definition get_user_sessions :: "db \<Rightarrow> nat \<Rightarrow> json list" where
  "get_user_sessions store user_id =
     map session_summary
       (rev (sort_key s_date (rev (filter (\<lambda>r. s_user_id r = user_id) (sessions store)))))"

definition get_sessions :: "db \<Rightarrow> nat option \<Rightarrow> reply" where
  "get_sessions store user =
     (case user of
        None \<Rightarrow> auth_required
      | Some user_id \<Rightarrow> Reply 200 (JArr (get_user_sessions store user_id)))"

subsection \<open>\<^verbatim>\<open>get_session_details\<close>\<close>

text \<open>\<^verbatim>\<open>dict(row)\<close> of a row of \<^verbatim>\<open>SELECT letter, word_text, meaning, example FROM word\<close>.\<close>

definition word_dict :: "word_row \<Rightarrow> json" where
  "word_dict r =
     JObj [(''letter'', column_value (w_letter r)), (''word_text'', column_value (w_word_text r)),
           (''meaning'', column_value (w_meaning r)), (''example'', column_value (w_example r))]"

definition get_session_details :: "db \<Rightarrow> nat \<Rightarrow> nat \<Rightarrow> json option" where
  "get_session_details store user_id session_id =
     (case find (\<lambda>r. s_id r = session_id \<and> s_user_id r = user_id) (sessions store) of
        None \<Rightarrow> None
      | Some session \<Rightarrow>
          Some (JObj
            [(''id'', JNum (int (s_id session))),
             (''mode'', column_value (s_mode session)),
             (''scorePercent'', column_value (s_score_percent session)),
             (''dateISO'', JStr (s_date session)),
             (''words'', JArr (map word_dict (filter (\<lambda>r. w_session_id r = session_id) (words store)))),
             (''quiz'', (case find (\<lambda>r. q_session_id r = session_id) (quizzes store) of
                           Some quiz_data \<Rightarrow> q_quiz_data quiz_data
                         | None \<Rightarrow> JArr []))]))"

text \<open>The route \<^verbatim>\<open>GET /api/sessions/<int:session_id>\<close>.\<close>

definition get_session_detail :: "db \<Rightarrow> nat option \<Rightarrow> nat \<Rightarrow> reply" where
  "get_session_detail store user session_id =
     (case user of
        None \<Rightarrow> auth_required
      | Some user_id \<Rightarrow>
          (case get_session_details store user_id session_id of
             Some session_details \<Rightarrow> Reply 200 session_details
           | None \<Rightarrow> Reply 404 (JObj [(''error'', JStr ''Session not found or access denied.'')])))"

subsection \<open>\<^verbatim>\<open>get_tracking_stats\<close>\<close>

text \<open>\<^verbatim>\<open>round(x)\<close> of a number: to the nearest integer, a half to the even neighbour.\<close>

definition round_half_even :: "rat \<Rightarrow> int" where
  "round_half_even x =
     (let f = \<lfloor>x\<rfloor>; d = x - of_int f
      in if d < 1 / 2 then f else if 1 / 2 < d then f + 1 else if even f then f else f + 1)"

text \<open>
  The double nearest to a rational number, as the arithmetic of doubles rounds every
  result: 53 significant bits, the least exponent \<open>-1074\<close>, a tie to the even
  neighbour, and infinity from \<open>2 ^ 1024\<close> on. \<open>floor_log2 q\<close> is the integer \<open>k\<close> with
  \<open>2 ^ k \<le> q < 2 ^ (k + 1)\<close>, for a positive \<open>q\<close>.
\<close>

definition floor_log2 :: "rat \<Rightarrow> int" where
  "floor_log2 q =
     (case quotient_of q of
        (a, b) \<Rightarrow> (let k = bitlen a - bitlen b in if power_int 2 k \<le> q then k else k - 1))"

definition round_double :: "rat \<Rightarrow> py_float" where
  "round_double q =
     (if q = 0 then Finite 0
      else (let e = max (- 1074) (floor_log2 \<bar>q\<bar> - 52);
                m = round_half_even (\<bar>q\<bar> / power_int 2 e);
                d = of_int m * power_int 2 e
            in if 2 ^ 1024 \<le> d then (if 0 < q then PosInf else NegInf)
               else Finite (if 0 < q then d else - d)))"

text \<open>
  \<open>AVG\<close> of SQLite over the values of a column: \<open>NULL\<close> when no value is left after the
  \<open>NULL\<close>s are dropped, and a double otherwise, the sum as a double divided by the count.
  When all values are integers whose absolute values add up to less than \<open>2 ^ 53\<close>, and there
  are fewer than \<open>2 ^ 53\<close> of them, the sum and the count are exact and the result is the
  double nearest to the quotient. An infinite value makes the result infinite, and the two
  infinities together make it NaN, which SQLite returns as \<open>NULL\<close>. In every other case (a
  sum of doubles that is rounded on the way, a text read as a number) the result depends on
  the version of SQLite and is the parameter \<open>approx\<close>.
\<close>

fun is_int :: "sqlval \<Rightarrow> bool" where
  "is_int (SInt n) = True"
| "is_int v = False"

fun is_number :: "sqlval \<Rightarrow> bool" where
  "is_number (SInt n) = True"
| "is_number (SReal x) = True"
| "is_number v = False"

fun int_value :: "sqlval \<Rightarrow> int" where
  "int_value (SInt n) = n"
| "int_value v = 0"

definition sql_avg :: "(sqlval list \<Rightarrow> py_float) \<Rightarrow> sqlval list \<Rightarrow> py_float option" where
  "sql_avg approx vs =
     (let xs = filter (\<lambda>v. v \<noteq> SNull) vs
      in if xs = [] then None
         else if list_all is_int xs \<and> sum_list (map (\<lambda>v. \<bar>int_value v\<bar>) xs) < 2 ^ 53
                 \<and> int (length xs) < 2 ^ 53
           then Some (round_double (of_int (sum_list (map int_value xs)) / of_nat (length xs)))
         else if list_all is_number xs
                 \<and> (SReal NaN \<in> set xs \<or> (SReal PosInf \<in> set xs \<and> SReal NegInf \<in> set xs))
           then None
         else if list_all is_number xs \<and> SReal PosInf \<in> set xs then Some PosInf
         else if list_all is_number xs \<and> SReal NegInf \<in> set xs then Some NegInf
         else (case approx xs of NaN \<Rightarrow> None | x \<Rightarrow> Some x))"

text \<open>\<^verbatim>\<open>round(x)\<close> of a float: an infinity and NaN raise.\<close>

fun py_round :: "py_float \<Rightarrow> py_error + int" where
  "py_round (Finite x) = Inr (round_half_even x)"
| "py_round PosInf = Inl OverflowError"
| "py_round NegInf = Inl OverflowError"
| "py_round NaN = Inl ValueError"

definition levels :: "string list" where
  "levels = [''beginner'', ''intermediate'', ''proficient'']"

definition level_rows :: "db \<Rightarrow> nat \<Rightarrow> string \<Rightarrow> session_row list" where
  "level_rows store user_id level =
     filter (\<lambda>r. s_user_id r = user_id \<and> sql_eq (s_mode r) (SText level)) (sessions store)"

text \<open>The entry of one level: the body of the loop, with the query and the two conditionals.\<close>

definition level_stats ::
  "(sqlval list \<Rightarrow> py_float) \<Rightarrow> db \<Rightarrow> nat \<Rightarrow> string \<Rightarrow> py_error + json" where
  "level_stats approx store user_id level =
     (let rows = level_rows store user_id level;
          average = sql_avg approx (map s_score_percent rows);
          count = length rows
      in and_then (case average of Some x \<Rightarrow> py_round x | None \<Rightarrow> Inr 0) (\<lambda>rounded.
         Inr (JObj [(''average'', JNum rounded), (''count'', JNum (int count))])))"

definition get_tracking_stats ::
  "(sqlval list \<Rightarrow> py_float) \<Rightarrow> db \<Rightarrow> nat \<Rightarrow> py_error + json" where
  "get_tracking_stats approx store user_id =
     and_then
       (map_raising
          (\<lambda>level. and_then (level_stats approx store user_id level) (\<lambda>entry. Inr (level, entry)))
          levels)
       (\<lambda>stats. Inr (JObj stats))"

definition get_tracking_data :: "(sqlval list \<Rightarrow> py_float) \<Rightarrow> db \<Rightarrow> nat option \<Rightarrow> reply" where
  "get_tracking_data approx store user =
     (case user of
        None \<Rightarrow> auth_required
      | Some user_id \<Rightarrow>
          (case get_tracking_stats approx store user_id of
             Inl e \<Rightarrow> Unhandled e
           | Inr tracking_data \<Rightarrow> Reply 200 tracking_data))"

section \<open>Registration: \<^verbatim>\<open>register\<close>\<close>

text \<open>\<^verbatim>\<open>data.get(key)\<close>: only a dict has the method; a missing key gives \<open>None\<close>.\<close>

fun dict_get :: "json \<Rightarrow> string \<Rightarrow> py_error + json" where
  "dict_get (JObj kvs) k = (case map_of kvs k of None \<Rightarrow> Inr JNull | Some v \<Rightarrow> Inr v)"
| "dict_get _ k = Inl AttributeError"

text \<open>
  \<^verbatim>\<open>generate_password_hash(password)\<close> is a library function, the parameter
  \<open>password_hash\<close> here; it needs a string. The format of a value in an f-string is the
  parameter \<open>fmt\<close> for a value that is not a string.
\<close>

fun py_format :: "(json \<Rightarrow> string) \<Rightarrow> json \<Rightarrow> string" where
  "py_format fmt (JStr s) = s"
| "py_format fmt j = fmt j"

fun hash_password :: "(string \<Rightarrow> string) \<Rightarrow> json \<Rightarrow> py_error + sqlval" where
  "hash_password password_hash (JStr s) = Inr (SText (password_hash s))"
| "hash_password password_hash _ = Inl AttributeError"

definition register_user ::
  "(string \<Rightarrow> string) \<Rightarrow> (json \<Rightarrow> string) \<Rightarrow> json \<Rightarrow> conn \<Rightarrow> (py_error + reply) \<times> conn" where
  "register_user password_hash fmt data c =
     (case and_then (dict_get data ''username'') (\<lambda>username.
           and_then (dict_get data ''password'') (\<lambda>password. Inr (username, password))) of
        Inl e \<Rightarrow> (Inl e, c)
      | Inr (username, password) \<Rightarrow>
          (if \<not> truthy username \<or> \<not> truthy password then
             (Inr (Reply 400 (JObj [(''error'', JStr ''Username and password are required.'')])), c)
           else
             (case bind_param username of
                Inl e \<Rightarrow> (Inl e, c)
              | Inr name \<Rightarrow>
                  (if find (\<lambda>u. sql_eq (u_username u) name) (users (view c)) \<noteq> None then
                     (Inr (Reply 409 (JObj [(''error'',
                        JStr (''User '' @ py_format fmt username @ '' is already registered.''))])), c)
                   else
                     (case hash_password password_hash password of
                        Inl e \<Rightarrow> (Inl e, c)
                      | Inr hashed \<Rightarrow>
                          (let row = \<lparr>u_id = next_rowid (map u_id (users (view c))),
                                      u_username = name, u_password = hashed\<rparr>;
                               c' = c\<lparr>view := (view c)\<lparr>users := users (view c) @ [row]\<rparr>\<rparr>
                           in (Inr (Reply 201 (JObj [(''message'', JStr ''Registration successful!'')])),
                               commit c')))))))"

text \<open>The route \<^verbatim>\<open>POST /api/register\<close>.\<close>

definition register :: "(string \<Rightarrow> string) \<Rightarrow> (json \<Rightarrow> string) \<Rightarrow> db \<Rightarrow> json \<Rightarrow> reply \<times> db" where
  "register password_hash fmt store data =
     (case register_user password_hash fmt data (get_db store) of
        (Inl e, c) \<Rightarrow> (Unhandled e, close_db c)
      | (Inr r, c) \<Rightarrow> (r, close_db c))"

section \<open>The example of a record as the specification words it\<close>

text \<open>
  The specification of the lookup scans the meanings in order and the definitions within
  each meaning in order, and takes the example of the first definition that carries one;
  the default string when none does. This is written here from those words, to be compared
  with \<open>scan_meanings\<close>.
\<close>

definition definitions_of :: "json \<Rightarrow> json list" where
  "definitions_of m =
     (case and_then (getitem_key m ''definitions'') py_iter of Inr ds \<Rightarrow> ds | Inl e \<Rightarrow> [])"

definition carries_example :: "json \<Rightarrow> bool" where
  "carries_example d = (py_in ''example'' d = Inr True)"

definition spec_example :: "json list \<Rightarrow> json" where
  "spec_example meanings =
     (case find carries_example (concat (map definitions_of meanings)) of
        None \<Rightarrow> JStr NO_EXAMPLE
      | Some d \<Rightarrow> (case getitem_key d ''example'' of Inr v \<Rightarrow> v | Inl e \<Rightarrow> JStr NO_EXAMPLE))"

section \<open>Concrete responses and networks\<close>

text \<open>
  A response of the dictionary service with two meanings: the only definition of the first
  has the default string itself as its example, the only definition of the second has the
  example \<open>x\<close>.
\<close>

definition default_example_meanings :: "json list" where
  "default_example_meanings =
     [JObj [(''definitions'',
        JArr [JObj [(''definition'', JStr ''d1''), (''example'', JStr ''No example sentence found.'')]])],
      JObj [(''definitions'',
        JArr [JObj [(''definition'', JStr ''d2''), (''example'', JStr ''x'')]])]]"

definition default_example_response :: http_result where
  "default_example_response =
     Response 200 (Some (JArr [JObj [(''word'', JStr ''cat''), (''meanings'', JArr default_example_meanings)]]))"

text \<open>A response of the dictionary service whose \<open>meanings\<close> field is \<open>null\<close>.\<close>

definition null_meanings_response :: http_result where
  "null_meanings_response =
     Response 200 (Some (JArr [JObj [(''word'', JStr ''apple''), (''meanings'', JNull)]]))"

text \<open>
  A network without state in which Datamuse answers every query with the one candidate
  \<open>apple\<close> and the dictionary answers every lookup with the response above.
\<close>

definition null_meanings_net :: "unit network" where
  "null_meanings_net e rq =
     (case rq of
        DatamuseGet sp md mx \<Rightarrow> (Response 200 (Some (JArr [JObj [(''word'', JStr ''apple'')]])), e)
      | DictionaryGet word \<Rightarrow> (null_meanings_response, e))"

definition start :: "unit world" where
  "start = \<lparr>env = (), log = []\<rparr>"

section \<open>Word records\<close>

text \<open>
  A finished word record of a letter: a dict with the keys \<open>word\<close>, \<open>meaning\<close>,
  \<open>example\<close> and \<open>letter\<close>, whose \<open>letter\<close> is the one-character string of the letter.
\<close>

definition is_word_record :: "char \<Rightarrow> json \<Rightarrow> bool" where
  "is_word_record letter d =
     (case d of
        JObj kvs \<Rightarrow> map fst kvs = [''word'', ''meaning'', ''example'', ''letter'']
                     \<and> map_of kvs ''letter'' = Some (JStr [letter])
      | _ \<Rightarrow> False)"

text \<open>
  A network without state in which Datamuse is unreachable and the dictionary knows the
  words \<open>Apple\<close> and \<open>Zeal\<close> only.
\<close>

definition entry_response :: "string \<Rightarrow> string \<Rightarrow> http_result" where
  "entry_response word meaning =
     Response 200 (Some (JArr [JObj [(''word'', JStr word),
       (''meanings'', JArr [JObj [(''definitions'', JArr [JObj [(''definition'', JStr meaning)]])]])]]))"

definition two_words_net :: "unit network" where
  "two_words_net e rq =
     (case rq of
        DictionaryGet word \<Rightarrow>
          (if word = JStr ''Apple'' then (entry_response ''apple'' ''a fruit'', e)
           else if word = JStr ''Zeal'' then (entry_response ''zeal'' ''eagerness'', e)
           else (Response 404 None, e))
      | DatamuseGet sp md mx \<Rightarrow> (Failed, e))"

section \<open>The requests of one letter\<close>

text \<open>The Datamuse query of a letter.\<close>

definition datamuse_query :: "string \<times> nat \<Rightarrow> char \<Rightarrow> request" where
  "datamuse_query params letter = DatamuseGet [to_lower letter, CHR ''*''] (fst params) (snd params)"



text \<open>The lookups of the words \<open>ws\<close>, with the results \<open>rs\<close>, as entries of the log.\<close>

definition lookups :: "json list \<Rightarrow> http_result list \<Rightarrow> (request \<times> http_result) list" where
  "lookups ws rs = zip (map DictionaryGet ws) rs"


section \<open>Stores and submitted sessions\<close>

text \<open>
  Every word row and every quiz row belongs to a session of the store. The empty store has
  the property and saving a session keeps it.
\<close>

definition references_ok :: "db \<Rightarrow> bool" where
  "references_ok store =
     (list_all (\<lambda>r. w_session_id r \<in> set (map s_id (sessions store))) (words store)
      \<and> list_all (\<lambda>r. q_session_id r \<in> set (map s_id (sessions store))) (quizzes store))"

definition empty_db :: db where
  "empty_db = \<lparr>users = [], sessions = [], words = [], quizzes = []\<rparr>"

text \<open>
  What \<open>get_session_details\<close> returns for a submitted word record \<open>w\<close>: the four
  fields as the database gives them back (a \<open>bool\<close> comes back as 0 or 1), the word under
  the name of its column.
\<close>

definition stored :: "json \<Rightarrow> json" where
  "stored j = (case bind_param j of Inr v \<Rightarrow> column_value v | Inl e \<Rightarrow> JNull)"

definition field :: "json \<Rightarrow> string \<Rightarrow> json" where
  "field w k = (case getitem_key w k of Inr v \<Rightarrow> v | Inl e \<Rightarrow> JNull)"

definition returned_word :: "json \<Rightarrow> json" where
  "returned_word w =
     JObj [(''letter'', stored (field w ''letter'')), (''word_text'', stored (field w ''word'')),
           (''meaning'', stored (field w ''meaning'')), (''example'', stored (field w ''example''))]"

text \<open>A submitted session with one word record, and one whose \<open>words\<close> are missing.\<close>

definition apple_record :: json where
  "apple_record =
     JObj [(''letter'', JStr ''A''), (''word'', JStr ''Apple''), (''meaning'', JStr ''a fruit''),
           (''example'', JStr ''An apple a day.'')]"

definition one_word_session :: "string \<Rightarrow> json" where
  "one_word_session mode =
     JObj [(''mode'', JStr mode), (''scorePercent'', JNum 80), (''words'', JArr [apple_record]),
           (''quiz'', JArr [JObj [(''question'', JStr ''Apple''), (''correct'', JBool True)]])]"

definition session_without_words :: json where
  "session_without_words = JObj [(''mode'', JStr ''beginner''), (''scorePercent'', JNum 80)]"

text \<open>
  The store after user 1 has saved \<open>one_word_session\<close> of a mode at the given time on the
  empty store, and the detail that \<open>get_session_details\<close> then returns.
\<close>

definition time1 :: string where
  "time1 = ''2024-05-01 10:00:00''"

definition store_after_save :: "string \<Rightarrow> db" where
  "store_after_save mode =
     \<lparr>users = [],
      sessions = [\<lparr>s_id = 1, s_user_id = 1, s_mode = SText mode, s_score_percent = SInt 80,
                   s_date = time1\<rparr>],
      words = [\<lparr>w_session_id = 1, w_letter = SText ''A'', w_word_text = SText ''Apple'',
                w_meaning = SText ''a fruit'', w_example = SText ''An apple a day.''\<rparr>],
      quizzes = [\<lparr>q_session_id = 1,
                  q_quiz_data = JArr [JObj [(''question'', JStr ''Apple''), (''correct'', JBool True)]]\<rparr>]\<rparr>"

definition returned_apple :: json where
  "returned_apple =
     JObj [(''letter'', JStr ''A''), (''word_text'', JStr ''Apple''), (''meaning'', JStr ''a fruit''),
           (''example'', JStr ''An apple a day.'')]"

text \<open>The answer 404 of \<open>get_session_detail\<close>.\<close>

definition not_found :: reply where
  "not_found = Reply 404 (JObj [(''error'', JStr ''Session not found or access denied.'')])"

section \<open>The statistics as the specification words them\<close>

text \<open>
  The sessions of one user in one tier and their scores; the mean of integer scores; and
  what it is for an integer to be the rounded mean: the nearest integer, and the even one
  of the two when the mean lies halfway between them.
\<close>

definition tier_sessions :: "db \<Rightarrow> nat \<Rightarrow> string \<Rightarrow> session_row list" where
  "tier_sessions store user_id tier =
     filter (\<lambda>r. s_user_id r = user_id \<and> s_mode r = SText tier) (sessions store)"

definition tier_scores :: "db \<Rightarrow> nat \<Rightarrow> string \<Rightarrow> sqlval list" where
  "tier_scores store user_id tier = map s_score_percent (tier_sessions store user_id tier)"

definition mean :: "sqlval list \<Rightarrow> rat" where
  "mean scores = of_int (sum_list (map int_value scores)) / of_nat (length scores)"

definition nearest_even :: "rat \<Rightarrow> int \<Rightarrow> bool" where
  "nearest_even x a = (\<bar>of_int a - x\<bar> < 1 / 2 \<or> (\<bar>of_int a - x\<bar> = 1 / 2 \<and> even a))"

definition is_average :: "sqlval list \<Rightarrow> int \<Rightarrow> bool" where
  "is_average scores a = (if scores = [] then a = 0 else nearest_even (mean scores) a)"

text \<open>
  Scores that are integers whose absolute values add up to less than \<open>2 ^ 52\<close>, fewer than
  \<open>2 ^ 53\<close> of them.
\<close>

definition small_integers :: "sqlval list \<Rightarrow> bool" where
  "small_integers scores =
     (list_all is_int scores \<and> sum_list (map (\<lambda>v. \<bar>int_value v\<bar>) scores) < 2 ^ 52
      \<and> int (length scores) < 2 ^ 53)"

text \<open>The entry of a tier in the statistics, with an average and a count.\<close>

definition entry :: "int \<Rightarrow> nat \<Rightarrow> json" where
  "entry average count = JObj [(''average'', JNum average), (''count'', JNum (int count))]"

text \<open>For the examples: a value of \<open>approx\<close>, and one of \<open>ucap\<close>.\<close>

definition no_approx :: "sqlval list \<Rightarrow> py_float" where
  "no_approx vs = Finite 0"

definition no_ucap :: "string \<Rightarrow> string" where
  "no_ucap s = s"

text \<open>
  A submitted session of the tier \<open>beginner\<close> whose score is infinite, as the request body
  \<^verbatim>\<open>{"mode": "beginner", "scorePercent": 1e999, "words": [], "quiz": []}\<close> is parsed, and the
  store after user 1 has saved it on the empty store.
\<close>

definition infinite_score_session :: json where
  "infinite_score_session =
     JObj [(''mode'', JStr ''beginner''), (''scorePercent'', JFloat PosInf), (''words'', JArr []),
           (''quiz'', JArr [])]"

definition infinite_score_store :: db where
  "infinite_score_store =
     \<lparr>users = [],
      sessions = [\<lparr>s_id = 1, s_user_id = 1, s_mode = SText ''beginner'',
                   s_score_percent = SReal PosInf, s_date = ''2024-05-01 10:00:00''\<rparr>],
      words = [],
      quizzes = [\<lparr>q_session_id = 1, q_quiz_data = JArr []\<rparr>]\<rparr>"

text \<open>
  A store with four sessions: two of user 1 in \<open>beginner\<close> with the scores 80 and 75, one
  of user 2 in \<open>beginner\<close> with the score 10, and one of user 1 in the mode \<open>expert\<close>.
\<close>

definition four_sessions :: db where
  "four_sessions =
     \<lparr>users = [],
      sessions =
        [\<lparr>s_id = 1, s_user_id = 1, s_mode = SText ''beginner'', s_score_percent = SInt 80,
          s_date = ''2024-05-01 10:00:00''\<rparr>,
         \<lparr>s_id = 2, s_user_id = 2, s_mode = SText ''beginner'', s_score_percent = SInt 10,
          s_date = ''2024-05-02 10:00:00''\<rparr>,
         \<lparr>s_id = 3, s_user_id = 1, s_mode = SText ''beginner'', s_score_percent = SInt 75,
          s_date = ''2024-05-03 10:00:00''\<rparr>,
         \<lparr>s_id = 4, s_user_id = 1, s_mode = SText ''expert'', s_score_percent = SInt 100,
          s_date = ''2024-05-04 10:00:00''\<rparr>],
      words = [], quizzes = []\<rparr>"

section \<open>Registration requests\<close>

text \<open>A hash function and a format for the examples, and the store in which \<open>alice\<close> is registered.\<close>

definition toy_hash :: "string \<Rightarrow> string" where
  "toy_hash p = ''hash:'' @ p"

definition toy_format :: "json \<Rightarrow> string" where
  "toy_format j = ''?''"

definition alice_store :: db where
  "alice_store =
     \<lparr>users = [\<lparr>u_id = 1, u_username = SText ''alice'', u_password = SText ''hash:secret123''\<rparr>],
      sessions = [], words = [], quizzes = []\<rparr>"

text \<open>
  The submitted username is already registered: a user row has it as its username, under
  the comparison of SQL.
\<close>

definition already_registered :: "db \<Rightarrow> json \<Rightarrow> bool" where
  "already_registered store username =
     (case bind_param username of
        Inr name \<Rightarrow> list_ex (\<lambda>u. sql_eq (u_username u) name) (users store)
      | Inl e \<Rightarrow> False)"

definition credentials :: "string \<Rightarrow> string \<Rightarrow> json" where
  "credentials username password = JObj [(''username'', JStr username), (''password'', JStr password)]"

section \<open>Properties of the dictionary lookup\<close>

lemma and_then_simps [simp]:
  "and_then (Inl e) f = Inl e"
  "and_then (Inr x) f = f x"
  by (simp_all add: and_then_def)

lemma and_then_Inr: "and_then m f = Inr y \<longleftrightarrow> (\<exists>x. m = Inr x \<and> f x = Inr y)"
  by (cases m) simp_all

lemma and_then_Inl: "and_then m f = Inl e \<longleftrightarrow> m = Inl e \<or> (\<exists>x. m = Inr x \<and> f x = Inl e)"
  by (cases m) simp_all

text \<open>A record of the lookup has the three keys \<open>word\<close>, \<open>meaning\<close> and \<open>example\<close>, in this order.\<close>

lemma word_details_try_shape:
  assumes "word_details_try ucap word r = Inr d"
  shows "\<exists>cw m ex. d = JObj [(''word'', cw), (''meaning'', m), (''example'', ex)]"
  using assms unfolding word_details_try_def by (auto simp: and_then_Inr)

lemma word_details_Some:
  "word_details ucap word r = Inr (Some d) \<longleftrightarrow> word_details_try ucap word r = Inr d"
  unfolding word_details_def
  by (cases "word_details_try ucap word r") (auto split: py_error.splits)

lemma word_details_None:
  "word_details ucap word r = Inr None \<longleftrightarrow>
     word_details_try ucap word r \<in> {Inl RequestException, Inl KeyError, Inl IndexError}"
  unfolding word_details_def
  by (cases "word_details_try ucap word r") (auto split: py_error.splits)

lemma word_details_shape:
  assumes "word_details ucap word r = Inr (Some d)"
  shows "\<exists>cw m ex. d = JObj [(''word'', cw), (''meaning'', m), (''example'', ex)]"
  using assms word_details_try_shape by (simp add: word_details_Some)

text \<open>The meaning of a record is \<^verbatim>\<open>data['meanings'][0]['definitions'][0]['definition']\<close>.\<close>

lemma word_details_meaning:
  assumes "word_details ucap word r = Inr (Some d)"
  shows "\<exists>j data m. response_json r = Inr j \<and> getitem_0 j = Inr data
           \<and> first_definition data = Inr m \<and> getitem_key d ''meaning'' = Inr m"
  using assms unfolding word_details_Some word_details_try_def
  by (auto simp: and_then_Inr)

text \<open>The inner loop stops at the first definition that carries an example.\<close>

lemma scan_definitions_find:
  assumes "scan_definitions ds = Inr found"
  shows "(find carries_example ds = None \<and> found = None)
       \<or> (\<exists>d v. find carries_example ds = Some d \<and> getitem_key d ''example'' = Inr v \<and> found = Some v)"
  using assms
proof (induction ds)
  case Nil
  then show ?case by simp
next
  case (Cons d ds)
  then show ?case
    by (cases "py_in ''example'' d") (auto simp: carries_example_def and_then_Inr split: if_splits)
qed

lemma find_append:
  "find P (xs @ ys) = (case find P xs of None \<Rightarrow> find P ys | Some x \<Rightarrow> Some x)"
  by (induction xs) auto

text \<open>
  The outer loop agrees with the specification whenever the example that the
  specification names is not the default string, and gives the default string when no
  definition carries an example.
\<close>

lemma scan_meanings_spec:
  assumes "scan_meanings (JStr NO_EXAMPLE) ms = Inr ex"
  shows "(spec_example ms \<noteq> JStr NO_EXAMPLE \<longrightarrow> ex = spec_example ms)
       \<and> (find carries_example (concat (map definitions_of ms)) = None \<longrightarrow> ex = JStr NO_EXAMPLE)"
  using assms
proof (induction ms)
  case Nil
  then show ?case by (simp add: spec_example_def)
next
  case (Cons m ms)
  from Cons.prems obtain defs ds found where
    defs: "getitem_key m ''definitions'' = Inr defs" and
    ds: "py_iter defs = Inr ds" and
    found: "scan_definitions ds = Inr found" and
    rest: "(let example' = (case found of None \<Rightarrow> JStr NO_EXAMPLE | Some v \<Rightarrow> v)
            in if example' \<noteq> JStr NO_EXAMPLE then Inr example'
               else scan_meanings example' ms) = Inr ex"
    by (auto simp: and_then_Inr)
  have dm: "definitions_of m = ds"
    using defs ds by (simp add: definitions_of_def)
  from scan_definitions_find [OF found] show ?case
  proof
    assume none: "find carries_example ds = None \<and> found = None"
    with rest have "scan_meanings (JStr NO_EXAMPLE) ms = Inr ex" by simp
    from Cons.IH [OF this] none dm show ?thesis
      by (simp add: spec_example_def find_append)
  next
    assume "\<exists>d v. find carries_example ds = Some d \<and> getitem_key d ''example'' = Inr v \<and> found = Some v"
    then obtain d v where
      d: "find carries_example ds = Some d" and v: "getitem_key d ''example'' = Inr v" and
      f: "found = Some v"
      by blast
    have spec: "spec_example (m # ms) = v"
      using d v dm by (simp add: spec_example_def find_append)
    show ?thesis
    proof (cases "v = JStr NO_EXAMPLE")
      case True
      then show ?thesis using spec d dm by (simp add: find_append)
    next
      case False
      with rest f have "ex = v" by simp
      then show ?thesis using spec d dm by (simp add: find_append)
    qed
  qed
qed

text \<open>
  C3. On the response with two meanings, of which the first has the default string as its
  example and the second the example \<open>x\<close>, the lookup succeeds and its record has the
  example \<open>x\<close>, whereas the first definition that carries an example, in the order of the
  specification, carries the default string.
\<close>

theorem lookup_example_skips_default_string:
  "word_details ucap (JStr ''cat'') default_example_response =
     Inr (Some (JObj [(''word'', JStr ''Cat''), (''meaning'', JStr ''d1''), (''example'', JStr ''x'')]))
   \<and> spec_example default_example_meanings = JStr ''No example sentence found.''"
  by (simp add: word_details_def word_details_try_def default_example_response_def
      default_example_meanings_def first_definition_def NO_EXAMPLE_def to_upper_def to_lower_def
      ascii_uppercase_def ascii_lowercase_def spec_example_def definitions_of_def
      carries_example_def)

lemma word_details_example:
  assumes "word_details ucap word r = Inr (Some d)"
  shows "\<exists>j data ms meanings ex. response_json r = Inr j \<and> getitem_0 j = Inr data
           \<and> getitem_key data ''meanings'' = Inr ms \<and> py_iter ms = Inr meanings
           \<and> getitem_key d ''example'' = Inr ex
           \<and> (spec_example meanings \<noteq> JStr NO_EXAMPLE \<longrightarrow> ex = spec_example meanings)
           \<and> (find carries_example (concat (map definitions_of meanings)) = None
                \<longrightarrow> ex = JStr NO_EXAMPLE)"
proof -
  from assms obtain j data ms meanings ex where
    a: "response_json r = Inr j" "getitem_0 j = Inr data"
    "getitem_key data ''meanings'' = Inr ms" "py_iter ms = Inr meanings"
    and scan: "scan_meanings (JStr NO_EXAMPLE) meanings = Inr ex"
    and b: "getitem_key d ''example'' = Inr ex"
    unfolding word_details_Some word_details_try_def by (auto simp: and_then_Inr)
  show ?thesis
    apply (rule exI [of _ j], rule exI [of _ data], rule exI [of _ ms])
    apply (rule exI [of _ meanings], rule exI [of _ ex])
    using a b scan_meanings_spec [OF scan] by simp
qed

text \<open>
  The failures that the two \<^verbatim>\<open>except\<close> clauses handle: no response, an error status, a
  body that is not JSON, an empty list of entries, a missing key \<open>meanings\<close>, an empty
  list of meanings, and a first definition that is missing. Each gives \<open>None\<close>.
\<close>

lemma word_details_transport: "word_details ucap word Failed = Inr None"
  by (simp add: word_details_def word_details_try_def)

lemma word_details_status:
  "400 \<le> st \<Longrightarrow> st < 600 \<Longrightarrow> word_details ucap word (Response st body) = Inr None"
  by (simp add: word_details_def word_details_try_def)

lemma word_details_not_json: "word_details ucap word (Response st None) = Inr None"
  by (simp add: word_details_def word_details_try_def)

lemma word_details_no_entry: "word_details ucap word (Response st (Some (JArr []))) = Inr None"
  by (simp add: word_details_def word_details_try_def)

lemma word_details_missing_meanings:
  "map_of kvs ''meanings'' = None \<Longrightarrow>
   word_details ucap word (Response st (Some (JArr (JObj kvs # others)))) = Inr None"
  by (simp add: word_details_def word_details_try_def first_definition_def)

lemma word_details_no_meaning:
  "map_of kvs ''meanings'' = Some (JArr []) \<Longrightarrow>
   word_details ucap word (Response st (Some (JArr (JObj kvs # others)))) = Inr None"
  by (simp add: word_details_def word_details_try_def first_definition_def)

lemma word_details_missing_definition:
  "first_definition data \<in> {Inl KeyError, Inl IndexError} \<Longrightarrow>
   word_details ucap word (Response st (Some (JArr (data # others)))) = Inr None"
  by (auto simp: word_details_def word_details_try_def)

text \<open>
  C8. On a response of the dictionary service whose \<open>meanings\<close> field is \<open>null\<close>, the
  lookup raises \<open>TypeError\<close>, which neither \<^verbatim>\<open>except\<close> clause handles, and the word-set
  build that probes a candidate with this response ends with that exception instead of
  skipping the candidate.
\<close>

theorem lookup_null_meanings_raises:
  "word_details ucap (JStr ''apple'') null_meanings_response = Inl TypeError
   \<and> fst (get_words ucap null_meanings_net (Some 1) ''beginner'' start) = Unhandled TypeError"
  by (simp add: word_details_def word_details_try_def null_meanings_response_def
      first_definition_def get_words_def ascii_uppercase_def params_of_def difficulty_params_def
      letter_step_def query_candidates_def requests_get_def null_meanings_net_def start_def
      get_word_details_def)

section \<open>Properties of the word-set build\<close>

lemma stamp_word_record:
  assumes "word_details ucap word r = Inr (Some d)"
  shows "is_word_record letter (stamp letter d)"
proof -
  from word_details_shape [OF assms] obtain cw m ex where
    "d = JObj [(''word'', cw), (''meaning'', m), (''example'', ex)]"
    by blast
  then show ?thesis by (simp add: is_word_record_def)
qed

lemma probe_word_record:
  assumes "probe ucap net letter cands w = (Inr (Some d), w')"
  shows "is_word_record letter d"
  using assms
proof (induction cands arbitrary: w)
  case Nil
  then show ?case by simp
next
  case (Cons word_data rest)
  show ?case
  proof (cases "getitem_key word_data ''word''")
    case (Inl e)
    with Cons.prems show ?thesis by simp
  next
    case (Inr word)
    obtain r w1 where rq: "requests_get net (DictionaryGet word) w = (r, w1)"
      by (cases "requests_get net (DictionaryGet word) w")
    show ?thesis
    proof (cases "word_details ucap word r")
      case (Inl e)
      with Cons.prems Inr rq show ?thesis by (simp add: get_word_details_def)
    next
      case res: (Inr found)
      show ?thesis
      proof (cases found)
        case None
        with Cons.prems Inr rq res have "probe ucap net letter rest w1 = (Inr (Some d), w')"
          by (simp add: get_word_details_def)
        then show ?thesis by (rule Cons.IH)
      next
        case (Some details)
        with Cons.prems Inr rq res have "d = stamp letter details"
          by (simp add: get_word_details_def)
        with res Some show ?thesis by (simp add: stamp_word_record)
      qed
    qed
  qed
qed

lemma use_fallback_word_record:
  assumes "use_fallback ucap net letter w = (Inr (Some d), w')"
  shows "is_word_record letter d"
proof (cases "map_of fallback_words letter")
  case None
  with assms show ?thesis by (simp add: use_fallback_def)
next
  case (Some fw)
  obtain r w1 where rq: "requests_get net (DictionaryGet (JStr fw)) w = (r, w1)"
    by (cases "requests_get net (DictionaryGet (JStr fw)) w")
  with assms Some show ?thesis
    by (cases "word_details ucap (JStr fw) r")
       (auto simp: use_fallback_def get_word_details_def stamp_word_record split: option.splits)
qed

lemma query_candidates_word_record:
  assumes "query_candidates ucap net params letter w = (Inr (Some d), w')"
  shows "is_word_record letter d"
  using assms unfolding query_candidates_def
  by (auto split: prod.splits sum.splits if_splits dest: probe_word_record)

lemma letter_step_word_record:
  assumes "letter_step ucap net params letter w = (Inr (Some d), w')"
  shows "is_word_record letter d"
proof -
  obtain q w1 where q: "query_candidates ucap net params letter w = (q, w1)"
    by (cases "query_candidates ucap net params letter w")
  show ?thesis
  proof (cases q)
    case (Inl e)
    with assms q show ?thesis
      by (cases e) (auto simp: letter_step_def dest: use_fallback_word_record)
  next
    case (Inr found)
    with assms q show ?thesis
      by (cases found)
         (auto simp: letter_step_def dest: use_fallback_word_record query_candidates_word_record)
  qed
qed

text \<open>The loop appends at most one record per letter, in the order of the letters.\<close>

lemma words_loop_records:
  assumes "words_loop ucap net params letters words_list w = (Inr ws, w')"
  shows "\<exists>ls new. ws = words_list @ new \<and> subseq ls letters \<and> list_all2 is_word_record ls new"
  using assms
proof (induction letters arbitrary: words_list w)
  case Nil
  then show ?case by simp
next
  case (Cons letter letters)
  obtain res w1 where step: "letter_step ucap net params letter w = (res, w1)"
    by (cases "letter_step ucap net params letter w")
  show ?case
  proof (cases res)
    case (Inl e)
    with Cons.prems step show ?thesis by simp
  next
    case (Inr found)
    show ?thesis
    proof (cases found)
      case None
      with Cons.prems step Inr have "words_loop ucap net params letters words_list w1 = (Inr ws, w')"
        by simp
      from Cons.IH [OF this] obtain ls new where
        "ws = words_list @ new" "subseq ls letters" "list_all2 is_word_record ls new"
        by blast
      then show ?thesis by (metis list_emb_Cons)
    next
      case (Some d)
      with Cons.prems step Inr
      have "words_loop ucap net params letters (words_list @ [d]) w1 = (Inr ws, w')"
        by simp
      from Cons.IH [OF this] obtain ls new where
        n: "ws = (words_list @ [d]) @ new" "subseq ls letters" "list_all2 is_word_record ls new"
        by blast
      have "is_word_record letter d"
        using step Inr Some by (auto intro: letter_step_word_record)
      with n have "ws = words_list @ (d # new) \<and> subseq (letter # ls) (letter # letters)
          \<and> list_all2 is_word_record (letter # ls) (d # new)"
        by simp
      then show ?thesis by blast
    qed
  qed
qed

lemma subseq_sorted_wrt:
  assumes "subseq xs ys" and "sorted_wrt P ys"
  shows "sorted_wrt P xs"
  using assms
proof (induction rule: list_emb.induct)
  case (list_emb_Nil ys)
  then show ?case by simp
next
  case (list_emb_Cons xs ys y)
  then show ?case by simp
next
  case (list_emb_Cons2 x y xs ys)
  then have "set xs \<subseteq> set ys" by (auto dest: list_emb_set)
  with list_emb_Cons2 show ?case by auto
qed

lemma ascii_uppercase_sorted: "sorted_wrt (<) ascii_uppercase"
  by (simp add: ascii_uppercase_def less_char_def)

text \<open>
  C1. For every level, a word-set build that answers with a list answers with at most 26
  records, one for each letter of a subsequence of A to Z: the records are in the order of
  the alphabet, no letter has two, and the \<open>letter\<close> field of each is its letter.
\<close>

theorem get_words_one_record_per_letter:
  assumes "get_words ucap net user level w = (Reply 200 body, w')"
  shows "\<exists>ws ls. body = JArr ws \<and> subseq ls ascii_uppercase \<and> sorted_wrt (<) ls
           \<and> list_all2 is_word_record ls ws \<and> length ws \<le> 26"
proof -
  from assms obtain ws where
    body: "body = JArr ws" and
    loop: "words_loop ucap net (params_of level) ascii_uppercase [] w = (Inr ws, w')"
    by (auto simp: get_words_def auth_required_def split: if_splits prod.splits sum.splits)
  from words_loop_records [OF loop] obtain ls where
    ls: "subseq ls ascii_uppercase" "list_all2 is_word_record ls ws"
    by auto
  have "sorted_wrt (<) ls"
    using ls(1) ascii_uppercase_sorted by (rule subseq_sorted_wrt)
  moreover have "length ws \<le> 26"
    using list_emb_length [OF ls(1)] list_all2_lengthD [OF ls(2)]
    by (simp add: ascii_uppercase_def)
  ultimately show ?thesis using body ls by blast
qed

lemma two_words_net_build:
  "fst (get_words ucap two_words_net (Some 1) ''proficient'' start) =
     Reply 200 (JArr
       [JObj [(''word'', JStr ''Apple''), (''meaning'', JStr ''a fruit''),
              (''example'', JStr ''No example sentence found.''), (''letter'', JStr ''A'')],
        JObj [(''word'', JStr ''Zeal''), (''meaning'', JStr ''eagerness''),
              (''example'', JStr ''No example sentence found.''), (''letter'', JStr ''Z'')]])"
  by (simp add: get_words_def ascii_uppercase_def ascii_lowercase_def params_of_def
      difficulty_params_def letter_step_def query_candidates_def requests_get_def
      two_words_net_def start_def use_fallback_def fallback_words_def get_word_details_def
      word_details_def word_details_try_def entry_response_def first_definition_def
      NO_EXAMPLE_def to_upper_def to_lower_def)

section \<open>The requests that one letter sends\<close>










lemma letter_step_datamuse_query:
  "query_candidates ucap net params letter w =
     (case requests_get net (datamuse_query params letter) w of
        (r, w1) \<Rightarrow>
          (case response_json r of
             Inl e \<Rightarrow> (Inl e, w1)
           | Inr potential_words \<Rightarrow>
               (if truthy potential_words then
                  (case and_then (slice5 potential_words) py_iter of
                     Inl e \<Rightarrow> (Inl e, w1)
                   | Inr cands \<Rightarrow> probe ucap net letter cands w1)
                else (Inr None, w1))))"
  by (simp add: query_candidates_def datamuse_query_def)







lemma fallback_words_total:
  assumes "letter \<in> set ascii_uppercase"
  shows "\<exists>fw. map_of fallback_words letter = Some fw"
  using assms by (auto simp: ascii_uppercase_def fallback_words_def)




theorem get_words_one_record_per_letter_witness:
  "fst (get_words no_ucap two_words_net (Some 1) ''proficient'' start) =
     Reply 200 (JArr
       [JObj [(''word'', JStr ''Apple''), (''meaning'', JStr ''a fruit''),
              (''example'', JStr ''No example sentence found.''), (''letter'', JStr ''A'')],
        JObj [(''word'', JStr ''Zeal''), (''meaning'', JStr ''eagerness''),
              (''example'', JStr ''No example sentence found.''), (''letter'', JStr ''Z'')]])
   \<and> subseq ''AZ'' ascii_uppercase \<and> sorted_wrt (<) ''AZ''"
proof -
  let ?ws = "[JObj [(''word'', JStr ''Apple''), (''meaning'', JStr ''a fruit''),
              (''example'', JStr ''No example sentence found.''), (''letter'', JStr ''A'')],
        JObj [(''word'', JStr ''Zeal''), (''meaning'', JStr ''eagerness''),
              (''example'', JStr ''No example sentence found.''), (''letter'', JStr ''Z'')]]"
  obtain w' where "get_words no_ucap two_words_net (Some 1) ''proficient'' start = (Reply 200 (JArr ?ws), w')"
    using two_words_net_build [of no_ucap]
    by (cases "get_words no_ucap two_words_net (Some 1) ''proficient'' start") simp
  from get_words_one_record_per_letter [OF this] obtain ls where
    ls: "subseq ls ascii_uppercase" "sorted_wrt (<) ls" "list_all2 is_word_record ls ?ws"
    by auto
  from ls(3) have "ls = ''AZ''"
    by (auto simp: list_all2_Cons2 is_word_record_def)
  with ls two_words_net_build [of no_ucap] show ?thesis by simp
qed

section \<open>Properties of the session store\<close>

lemma map_raising_length:
  "map_raising f xs = Inr ys \<Longrightarrow> length ys = length xs"
  by (induction xs arbitrary: ys) (auto simp: and_then_Inr)

text \<open>Each part of \<open>save_session_data\<close> changes the view only.\<close>

lemma insert_header_committed:
  assumes "insert_header user_id data now c = (res, c')"
  shows "committed c' = committed c"
  using assms unfolding insert_header_def
  by (auto simp: Let_def split: sum.splits prod.splits)

lemma insert_header_Inr:
  assumes "insert_header user_id data now c = (Inr sid, c')"
  shows "sid = next_rowid (map s_id (sessions (view c)))
         \<and> (\<exists>mode score m s. getitem_key data ''mode'' = Inr mode
               \<and> getitem_key data ''scorePercent'' = Inr score
               \<and> bind_param mode = Inr m \<and> bind_param score = Inr s
               \<and> view c' = (view c)\<lparr>sessions := sessions (view c) @
                    [\<lparr>s_id = sid, s_user_id = user_id, s_mode = m, s_score_percent = s,
                      s_date = now\<rparr>]\<rparr>)"
  using assms unfolding insert_header_def
  by (auto simp: and_then_Inr Let_def split: sum.splits prod.splits)

lemma executemany_committed:
  assumes "executemany sid ts c = (res, c')"
  shows "committed c' = committed c"
  using assms
  by (induction ts arbitrary: c) (auto split: sum.splits)

lemma executemany_Inr:
  assumes "executemany sid ts c = (Inr u, c')"
  shows "\<exists>rows. map_raising (bind_word sid) ts = Inr rows
           \<and> view c' = (view c)\<lparr>words := words (view c) @ rows\<rparr>"
  using assms
proof (induction ts arbitrary: c)
  case Nil
  then show ?case by simp
next
  case (Cons t ts)
  from Cons.prems obtain row where row: "bind_word sid t = Inr row"
    by (cases "bind_word sid t") auto
  let ?c1 = "c\<lparr>view := (view c)\<lparr>words := words (view c) @ [row]\<rparr>\<rparr>"
  from Cons.prems row have "executemany sid ts ?c1 = (Inr u, c')" by simp
  from Cons.IH [OF this] obtain rows where
    "map_raising (bind_word sid) ts = Inr rows"
    "view c' = (view ?c1)\<lparr>words := words (view ?c1) @ rows\<rparr>"
    by blast
  with row have "map_raising (bind_word sid) (t # ts) = Inr (row # rows)
      \<and> view c' = (view c)\<lparr>words := words (view c) @ row # rows\<rparr>"
    by simp
  then show ?case by blast
qed

lemma insert_words_committed:
  assumes "insert_words sid data c = (res, c')"
  shows "committed c' = committed c"
  using assms unfolding insert_words_def
  by (auto split: sum.splits dest: executemany_committed)

lemma insert_words_Inr:
  assumes "insert_words sid data c = (Inr u, c')"
  shows "\<exists>ws tuples rows. and_then (getitem_key data ''words'') py_iter = Inr ws
           \<and> map_raising word_tuple ws = Inr tuples
           \<and> map_raising (bind_word sid) tuples = Inr rows
           \<and> view c' = (view c)\<lparr>words := words (view c) @ rows\<rparr>"
proof -
  from assms obtain tuples where
    t: "and_then (getitem_key data ''words'') (\<lambda>ws. and_then (py_iter ws) (map_raising word_tuple))
          = Inr tuples" and
    e: "executemany sid tuples c = (Inr u, c')"
    unfolding insert_words_def by (auto split: sum.splits)
  from t obtain ws where "and_then (getitem_key data ''words'') py_iter = Inr ws"
    "map_raising word_tuple ws = Inr tuples"
    by (auto simp: and_then_Inr)
  with executemany_Inr [OF e] show ?thesis by blast
qed

lemma insert_quiz_committed:
  assumes "insert_quiz sid data c = (res, c')"
  shows "committed c' = committed c"
  using assms unfolding insert_quiz_def
  by (auto split: sum.splits)

lemma insert_quiz_Inr:
  assumes "insert_quiz sid data c = (Inr u, c')"
  shows "\<exists>quiz. getitem_key data ''quiz'' = Inr quiz
           \<and> view c' = (view c)\<lparr>quizzes := quizzes (view c) @
                [\<lparr>q_session_id = sid, q_quiz_data = quiz\<rparr>]\<rparr>"
  using assms unfolding insert_quiz_def
  by (auto split: sum.splits)

text \<open>An exception in \<open>save_session_data\<close> leaves the committed store as it was.\<close>

lemma save_session_data_Inl:
  assumes "save_session_data user_id data now c = (Inl e, c')"
  shows "committed c' = committed c"
proof -
  obtain r1 c1 where h: "insert_header user_id data now c = (r1, c1)"
    by (cases "insert_header user_id data now c")
  note c1 = insert_header_committed [OF h]
  show ?thesis
  proof (cases r1)
    case (Inl e1)
    with assms h c1 show ?thesis by (simp add: save_session_data_def)
  next
    case (Inr sid)
    obtain r2 c2 where w: "insert_words sid data c1 = (r2, c2)"
      by (cases "insert_words sid data c1")
    note c2 = insert_words_committed [OF w]
    show ?thesis
    proof (cases r2)
      case (Inl e2)
      with assms h Inr w c1 c2 show ?thesis by (simp add: save_session_data_def)
    next
      case u: (Inr u)
      obtain r3 c3 where q: "insert_quiz sid data c2 = (r3, c3)"
        by (cases "insert_quiz sid data c2")
      note c3 = insert_quiz_committed [OF q]
      from assms h Inr w u q c1 c2 c3 show ?thesis
        by (cases r3) (simp_all add: save_session_data_def)
    qed
  qed
qed

text \<open>
  A successful \<open>save_session_data\<close> commits the header, one row for every submitted word
  and the quiz row, all with the new session id.
\<close>

lemma save_session_data_Inr:
  assumes "save_session_data user_id data now c = (Inr u, c')"
  shows "\<exists>mode score m s ws tuples rows quiz.
           getitem_key data ''mode'' = Inr mode \<and> getitem_key data ''scorePercent'' = Inr score
           \<and> bind_param mode = Inr m \<and> bind_param score = Inr s
           \<and> and_then (getitem_key data ''words'') py_iter = Inr ws
           \<and> map_raising word_tuple ws = Inr tuples
           \<and> map_raising (bind_word (next_rowid (map s_id (sessions (view c))))) tuples = Inr rows
           \<and> getitem_key data ''quiz'' = Inr quiz
           \<and> committed c' = (view c)\<lparr>
                sessions := sessions (view c) @
                  [\<lparr>s_id = next_rowid (map s_id (sessions (view c))), s_user_id = user_id,
                    s_mode = m, s_score_percent = s, s_date = now\<rparr>],
                words := words (view c) @ rows,
                quizzes := quizzes (view c) @
                  [\<lparr>q_session_id = next_rowid (map s_id (sessions (view c))), q_quiz_data = quiz\<rparr>]\<rparr>"
proof -
  from assms obtain sid c1 c2 c3 u2 u3 where
    h: "insert_header user_id data now c = (Inr sid, c1)" and
    w: "insert_words sid data c1 = (Inr u2, c2)" and
    q: "insert_quiz sid data c2 = (Inr u3, c3)" and
    c': "c' = commit c3"
    unfolding save_session_data_def by (auto split: prod.splits sum.splits)
  from insert_header_Inr [OF h] obtain mode score m s where
    sid: "sid = next_rowid (map s_id (sessions (view c)))" and
    hm: "getitem_key data ''mode'' = Inr mode" "getitem_key data ''scorePercent'' = Inr score"
      "bind_param mode = Inr m" "bind_param score = Inr s" and
    v1: "view c1 = (view c)\<lparr>sessions := sessions (view c) @
           [\<lparr>s_id = sid, s_user_id = user_id, s_mode = m, s_score_percent = s, s_date = now\<rparr>]\<rparr>"
    by blast
  from insert_words_Inr [OF w] obtain ws tuples rows where
    wm: "and_then (getitem_key data ''words'') py_iter = Inr ws"
      "map_raising word_tuple ws = Inr tuples" "map_raising (bind_word sid) tuples = Inr rows" and
    v2: "view c2 = (view c1)\<lparr>words := words (view c1) @ rows\<rparr>"
    by blast
  from insert_quiz_Inr [OF q] obtain quiz where
    qm: "getitem_key data ''quiz'' = Inr quiz" and
    v3: "view c3 = (view c2)\<lparr>quizzes := quizzes (view c2) @
           [\<lparr>q_session_id = sid, q_quiz_data = quiz\<rparr>]\<rparr>"
    by blast
  have "committed c' = (view c)\<lparr>
          sessions := sessions (view c) @
            [\<lparr>s_id = sid, s_user_id = user_id, s_mode = m, s_score_percent = s, s_date = now\<rparr>],
          words := words (view c) @ rows,
          quizzes := quizzes (view c) @ [\<lparr>q_session_id = sid, q_quiz_data = quiz\<rparr>]\<rparr>"
    using c' v1 v2 v3 by (simp add: commit_def)
  with hm wm qm sid show ?thesis by blast
qed

lemma bind_word_session_id: "bind_word sid t = Inr row \<Longrightarrow> w_session_id row = sid"
  by (cases t) (auto simp: bind_word_def and_then_Inr)

lemma bind_words_session_id:
  "map_raising (bind_word sid) ts = Inr rows \<Longrightarrow> list_all (\<lambda>r. w_session_id r = sid) rows"
  by (induction ts arbitrary: rows) (auto simp: and_then_Inr dest: bind_word_session_id)

text \<open>
  C5. A request to save a session either answers 201 and leaves the store with the
  header, one word row for every submitted word and the quiz row added, or leaves the
  store exactly as it was; in the second case a logged-in caller gets status 500, the
  answer to the exception. No store ever holds the header without its words.
\<close>

theorem save_session_atomic:
  assumes "save_session store user data now = (reply, store')"
  shows "(status reply \<noteq> 201 \<longrightarrow> store' = store \<and> (user \<noteq> None \<longrightarrow> (\<exists>e. reply = Unhandled e)))
       \<and> (status reply = 201 \<longrightarrow>
            (\<exists>user_id m s ws rows quiz. user = Some user_id
               \<and> and_then (getitem_key data ''words'') py_iter = Inr ws
               \<and> length rows = length ws
               \<and> list_all (\<lambda>r. w_session_id r = next_rowid (map s_id (sessions store))) rows
               \<and> getitem_key data ''quiz'' = Inr quiz
               \<and> store' = store\<lparr>
                    sessions := sessions store @
                      [\<lparr>s_id = next_rowid (map s_id (sessions store)), s_user_id = user_id,
                        s_mode = m, s_score_percent = s, s_date = now\<rparr>],
                    words := words store @ rows,
                    quizzes := quizzes store @
                      [\<lparr>q_session_id = next_rowid (map s_id (sessions store)),
                        q_quiz_data = quiz\<rparr>]\<rparr>))"
proof (cases user)
  case None
  with assms show ?thesis by (auto simp: save_session_def auth_required_def)
next
  case (Some user_id)
  obtain res c where s: "save_session_data user_id data now (get_db store) = (res, c)"
    by (cases "save_session_data user_id data now (get_db store)")
  show ?thesis
  proof (cases res)
    case (Inl e)
    with s have "committed c = store"
      using save_session_data_Inl [of user_id data now "get_db store" e c]
      by (simp add: get_db_def)
    with assms Some s Inl show ?thesis
      by (auto simp: save_session_def close_db_def)
  next
    case (Inr u)
    with assms Some s have reply: "status reply = 201" and store': "store' = committed c"
      by (auto simp: save_session_def close_db_def)
    from s Inr have "save_session_data user_id data now (get_db store) = (Inr u, c)" by simp
    from save_session_data_Inr [OF this] obtain m s ws tuples rows quiz where
      a: "and_then (getitem_key data ''words'') py_iter = Inr ws"
        "map_raising word_tuple ws = Inr tuples"
        "map_raising (bind_word (next_rowid (map s_id (sessions store)))) tuples = Inr rows"
        "getitem_key data ''quiz'' = Inr quiz" and
      c: "committed c = store\<lparr>
            sessions := sessions store @
              [\<lparr>s_id = next_rowid (map s_id (sessions store)), s_user_id = user_id,
                s_mode = m, s_score_percent = s, s_date = now\<rparr>],
            words := words store @ rows,
            quizzes := quizzes store @
              [\<lparr>q_session_id = next_rowid (map s_id (sessions store)), q_quiz_data = quiz\<rparr>]\<rparr>"
      by (auto simp: get_db_def)
    have len: "length rows = length ws"
      using map_raising_length [OF a(2)] map_raising_length [OF a(3)] by simp
    have "list_all (\<lambda>r. w_session_id r = next_rowid (map s_id (sessions store))) rows"
      using a(3) by (rule bind_words_session_id)
    with reply store' Some a(1,4) c len show ?thesis by blast
  qed
qed

lemma session_without_words_partial:
  "save_session_data 1 session_without_words ''2024-05-01 10:00:00'' (get_db empty_db) =
     (Inl KeyError,
      \<lparr>committed = empty_db,
       view = empty_db\<lparr>sessions := [\<lparr>s_id = 1, s_user_id = 1, s_mode = SText ''beginner'',
                 s_score_percent = SInt 80, s_date = ''2024-05-01 10:00:00''\<rparr>]\<rparr>\<rparr>)"
  by (simp add: save_session_data_def insert_header_def insert_words_def
      session_without_words_def get_db_def empty_db_def next_rowid_def)

theorem save_session_atomic_witness:
  "save_session empty_db (Some 1) session_without_words ''2024-05-01 10:00:00'' =
     (Unhandled KeyError, empty_db)
   \<and> status (Unhandled KeyError) \<noteq> 201"
proof -
  have "fst (save_session empty_db (Some 1) session_without_words ''2024-05-01 10:00:00'')
      = Unhandled KeyError"
    using session_without_words_partial by (simp add: save_session_def)
  then obtain store' where
    s: "save_session empty_db (Some 1) session_without_words ''2024-05-01 10:00:00''
          = (Unhandled KeyError, store')"
    by (cases "save_session empty_db (Some 1) session_without_words ''2024-05-01 10:00:00''") simp
  from save_session_atomic [OF s] have "store' = empty_db" by simp
  with s show ?thesis by simp
qed

lemma fold_max_upper: "x \<in> set xs \<Longrightarrow> x \<le> fold max xs (a::nat)"
proof (induction xs arbitrary: a)
  case Nil
  then show ?case by simp
next
  case (Cons y ys)
  have mono: "b \<le> fold max ys b" for b :: nat
    by (induction ys arbitrary: b) (auto intro: order_trans [OF max.cobounded2])
  from Cons show ?case
    using mono [of "max y a"] by auto
qed

lemma next_rowid_fresh: "x \<in> set ids \<Longrightarrow> x < next_rowid ids"
  using fold_max_upper [of x ids 0] by (simp add: next_rowid_def)

lemma find_append_new:
  assumes "\<forall>x\<in>set xs. \<not> P x" and "P y"
  shows "find P (xs @ [y]) = Some y"
  using assms by (induction xs) auto

lemma filter_append_new:
  assumes "\<forall>x\<in>set xs. \<not> P x" and "\<forall>y\<in>set ys. P y"
  shows "filter P (xs @ ys) = ys"
  using assms by (simp add: filter_empty_conv filter_id_conv)

text \<open>The dict that is returned for a stored word row is \<open>returned_word\<close> of the submitted record.\<close>

lemma word_dict_returned_word:
  assumes "word_tuple w = Inr t" and "bind_word sid t = Inr row"
  shows "word_dict row = returned_word w"
  using assms
  by (cases t)
     (auto simp: word_tuple_def bind_word_def and_then_Inr word_dict_def returned_word_def
       stored_def field_def)

lemma word_dicts_returned_words:
  assumes "map_raising word_tuple ws = Inr tuples" and "map_raising (bind_word sid) tuples = Inr rows"
  shows "map word_dict rows = map returned_word ws"
  using assms
proof (induction ws arbitrary: tuples rows)
  case Nil
  then show ?case by auto
next
  case (Cons w ws)
  from Cons.prems(1) obtain t ts where
    t: "word_tuple w = Inr t" "map_raising word_tuple ws = Inr ts" "tuples = t # ts"
    by (auto simp: and_then_Inr)
  with Cons.prems(2) obtain row rest where
    r: "bind_word sid t = Inr row" "map_raising (bind_word sid) ts = Inr rest" "rows = row # rest"
    by (auto simp: and_then_Inr)
  from Cons.IH [OF t(2) r(2)] word_dict_returned_word [OF t(1) r(1)] r(3)
  show ?case by simp
qed

text \<open>A word record of four strings comes back with its values, the word under \<open>word_text\<close>.\<close>

lemma returned_word_strings:
  "returned_word (JObj [(''letter'', JStr l), (''word'', JStr wd), (''meaning'', JStr m),
                        (''example'', JStr ex)])
   = JObj [(''letter'', JStr l), (''word_text'', JStr wd), (''meaning'', JStr m),
           (''example'', JStr ex)]"
  by (simp add: returned_word_def stored_def field_def)

lemma save_session_201:
  assumes "save_session store (Some user_id) data now = (reply, store')" and "status reply = 201"
  shows "\<exists>u c. save_session_data user_id data now (get_db store) = (Inr u, c) \<and> store' = committed c"
  using assms
  by (auto simp: save_session_def close_db_def split: prod.splits sum.splits)

text \<open>
  C4, as amended. On a store whose word and quiz rows belong to its sessions, after a
  request that saved a session, \<open>get_session_details\<close> for the new id returns the
  submitted quiz unchanged and, for the submitted words in their order, one dict each with
  the keys \<open>letter\<close>, \<open>word_text\<close>, \<open>meaning\<close> and \<open>example\<close> and the submitted values.
\<close>

theorem saved_session_detail:
  assumes "references_ok store"
    and "save_session store (Some user_id) data now = (reply, store')"
    and "status reply = 201"
  shows "\<exists>mode score ws quiz. getitem_key data ''mode'' = Inr mode
           \<and> getitem_key data ''scorePercent'' = Inr score
           \<and> and_then (getitem_key data ''words'') py_iter = Inr ws
           \<and> getitem_key data ''quiz'' = Inr quiz
           \<and> get_session_details store' user_id (next_rowid (map s_id (sessions store))) =
               Some (JObj [(''id'', JNum (int (next_rowid (map s_id (sessions store))))),
                           (''mode'', stored mode), (''scorePercent'', stored score),
                           (''dateISO'', JStr now),
                           (''words'', JArr (map returned_word ws)),
                           (''quiz'', quiz)])"
proof -
  let ?sid = "next_rowid (map s_id (sessions store))"
  from save_session_201 [OF assms(2,3)] obtain u c where
    s: "save_session_data user_id data now (get_db store) = (Inr u, c)" and
    store': "store' = committed c"
    by blast
  from save_session_data_Inr [OF s] obtain mode score m sc ws tuples rows quiz where
    a: "getitem_key data ''mode'' = Inr mode" "getitem_key data ''scorePercent'' = Inr score"
      "bind_param mode = Inr m" "bind_param score = Inr sc"
      "and_then (getitem_key data ''words'') py_iter = Inr ws"
      "map_raising word_tuple ws = Inr tuples"
      "map_raising (bind_word ?sid) tuples = Inr rows"
      "getitem_key data ''quiz'' = Inr quiz" and
    c: "committed c = store\<lparr>
          sessions := sessions store @
            [\<lparr>s_id = ?sid, s_user_id = user_id, s_mode = m, s_score_percent = sc, s_date = now\<rparr>],
          words := words store @ rows,
          quizzes := quizzes store @ [\<lparr>q_session_id = ?sid, q_quiz_data = quiz\<rparr>]\<rparr>"
    by (auto simp: get_db_def)
  let ?row = "\<lparr>s_id = ?sid, s_user_id = user_id, s_mode = m, s_score_percent = sc, s_date = now\<rparr>"
  have old_sessions: "\<forall>r\<in>set (sessions store). \<not> (s_id r = ?sid \<and> s_user_id r = user_id)"
    using next_rowid_fresh [of _ "map s_id (sessions store)"] by fastforce
  have old_words: "\<forall>r\<in>set (words store). \<not> w_session_id r = ?sid"
    using assms(1) next_rowid_fresh [of _ "map s_id (sessions store)"]
    by (fastforce simp: references_ok_def list_all_iff)
  have old_quizzes: "\<forall>r\<in>set (quizzes store). \<not> q_session_id r = ?sid"
    using assms(1) next_rowid_fresh [of _ "map s_id (sessions store)"]
    by (fastforce simp: references_ok_def list_all_iff)
  have new_words: "\<forall>r\<in>set rows. w_session_id r = ?sid"
    using bind_words_session_id [OF a(7)] by (simp add: list_all_iff)
  have f1: "find (\<lambda>r. s_id r = ?sid \<and> s_user_id r = user_id) (sessions store @ [?row]) = Some ?row"
    using old_sessions by (intro find_append_new) simp_all
  have f2: "filter (\<lambda>r. w_session_id r = ?sid) (words store @ rows) = rows"
    using old_words new_words by (rule filter_append_new)
  have f3: "find (\<lambda>r. q_session_id r = ?sid) (quizzes store @ [\<lparr>q_session_id = ?sid, q_quiz_data = quiz\<rparr>])
      = Some \<lparr>q_session_id = ?sid, q_quiz_data = quiz\<rparr>"
    using old_quizzes by (intro find_append_new) simp_all
  have "get_session_details store' user_id ?sid =
      Some (JObj [(''id'', JNum (int ?sid)), (''mode'', stored mode), (''scorePercent'', stored score),
                  (''dateISO'', JStr now), (''words'', JArr (map returned_word ws)),
                  (''quiz'', quiz)])"
    unfolding get_session_details_def store' c
    using f1 f2 f3 a(3,4) word_dicts_returned_words [OF a(6,7)]
    by (simp add: stored_def)
  with a(1,2,5,8) show ?thesis by blast
qed

lemma references_ok_empty: "references_ok empty_db"
  by (simp add: references_ok_def empty_db_def)

lemma save_session_references_ok:
  assumes "references_ok store" and "save_session store user data now = (reply, store')"
  shows "references_ok store'"
proof (cases "status reply = 201 \<and> user \<noteq> None")
  case True
  then obtain user_id where u: "user = Some user_id" by auto
  from save_session_201 [of store user_id data now reply store'] assms(2) True u
  obtain v c where
    s: "save_session_data user_id data now (get_db store) = (Inr v, c)" and
    store': "store' = committed c"
    by auto
  from save_session_data_Inr [OF s] obtain m sc tuples rows quiz where
    r: "map_raising (bind_word (next_rowid (map s_id (sessions store)))) tuples = Inr rows" and
    c: "committed c = store\<lparr>
          sessions := sessions store @
            [\<lparr>s_id = next_rowid (map s_id (sessions store)), s_user_id = user_id, s_mode = m,
              s_score_percent = sc, s_date = now\<rparr>],
          words := words store @ rows,
          quizzes := quizzes store @
            [\<lparr>q_session_id = next_rowid (map s_id (sessions store)), q_quiz_data = quiz\<rparr>]\<rparr>"
    by (auto simp: get_db_def)
  from bind_words_session_id [OF r] assms(1) show ?thesis
    unfolding store' c references_ok_def list_all_iff by auto
next
  case False
  then have "store' = store"
  proof (cases user)
    case None
    with assms(2) show ?thesis by (simp add: save_session_def)
  next
    case (Some user_id)
    with False have n: "status reply \<noteq> 201" by simp
    obtain res c where s: "save_session_data user_id data now (get_db store) = (res, c)"
      by (cases "save_session_data user_id data now (get_db store)")
    show ?thesis
    proof (cases res)
      case (Inl e)
      with s save_session_data_Inl [of user_id data now "get_db store" e c] assms(2) Some
      show ?thesis by (simp add: save_session_def close_db_def get_db_def)
    next
      case (Inr v)
      with s assms(2) Some n show ?thesis by (auto simp: save_session_def)
    qed
  qed
  with assms(1) show ?thesis by simp
qed

lemma save_one_word_session:
  "save_session empty_db (Some 1) (one_word_session mode) time1 =
     (Reply 201 (JObj [(''message'', JStr ''Session saved successfully.'')]), store_after_save mode)"
  by (simp add: save_session_def save_session_data_def insert_header_def insert_words_def
      insert_quiz_def one_word_session_def apple_record_def word_tuple_def bind_word_def
      get_db_def commit_def close_db_def empty_db_def next_rowid_def store_after_save_def)

theorem saved_session_detail_witness:
  "references_ok empty_db
   \<and> save_session empty_db (Some 1) (one_word_session ''beginner'') time1 =
       (Reply 201 (JObj [(''message'', JStr ''Session saved successfully.'')]),
        store_after_save ''beginner'')
   \<and> get_session_details (store_after_save ''beginner'') 1 1 =
       Some (JObj [(''id'', JNum 1), (''mode'', JStr ''beginner''), (''scorePercent'', JNum 80),
                   (''dateISO'', JStr time1), (''words'', JArr [returned_apple]),
                   (''quiz'', JArr [JObj [(''question'', JStr ''Apple''), (''correct'', JBool True)]])])"
proof -
  have st: "status (Reply 201 (JObj [(''message'', JStr ''Session saved successfully.'')])) = 201"
    by simp
  from saved_session_detail [OF references_ok_empty save_one_word_session st, of "''beginner''"]
  have "get_session_details (store_after_save ''beginner'') 1 1 =
       Some (JObj [(''id'', JNum 1), (''mode'', JStr ''beginner''), (''scorePercent'', JNum 80),
                   (''dateISO'', JStr time1), (''words'', JArr [returned_apple]),
                   (''quiz'', JArr [JObj [(''question'', JStr ''Apple''), (''correct'', JBool True)]])])"
    by (auto simp: one_word_session_def apple_record_def returned_apple_def returned_word_def
        stored_def field_def empty_db_def next_rowid_def)
  with references_ok_empty save_one_word_session show ?thesis by simp
qed

text \<open>
  C4, as stated, fails: the saved session with the one word record \<open>apple_record\<close> comes
  back with a word record that has the key \<open>word_text\<close> and no key \<open>word\<close>, so the
  returned words are not the submitted ones.
\<close>

theorem saved_words_renamed_counterexample:
  "save_session empty_db (Some 1) (one_word_session ''beginner'') time1 =
       (Reply 201 (JObj [(''message'', JStr ''Session saved successfully.'')]),
        store_after_save ''beginner'')
   \<and> getitem_key (one_word_session ''beginner'') ''words'' = Inr (JArr [apple_record])
   \<and> and_then (case get_session_details (store_after_save ''beginner'') 1 1 of
                 Some detail \<Rightarrow> Inr detail | None \<Rightarrow> Inl KeyError)
        (\<lambda>detail. getitem_key detail ''words'') = Inr (JArr [returned_apple])
   \<and> getitem_key apple_record ''word'' = Inr (JStr ''Apple'')
   \<and> getitem_key returned_apple ''word'' = Inl KeyError
   \<and> JArr [returned_apple] \<noteq> JArr [apple_record]"
  using save_one_word_session [of "''beginner''"]
  by (simp add: get_session_details_def store_after_save_def one_word_session_def
      apple_record_def returned_apple_def word_dict_def)

lemma get_session_details_None:
  assumes "\<forall>r\<in>set (sessions store). s_id r = session_id \<longrightarrow> s_user_id r \<noteq> user_id"
  shows "get_session_details store user_id session_id = None"
proof -
  have "find (\<lambda>r. s_id r = session_id \<and> s_user_id r = user_id) (sessions store) = None"
    using assms by (auto simp: find_None_iff)
  then show ?thesis by (simp add: get_session_details_def)
qed

text \<open>
  C6. When the session \<open>session_id\<close> exists in one store and belongs to another user
  than \<open>user_id\<close>, and does not exist at all in a second store, the two requests of
  \<open>user_id\<close> for it get the same answer, status 404 with the same body.
\<close>

theorem session_of_other_user_not_found:
  assumes "\<exists>r\<in>set (sessions store1). s_id r = session_id"
    and "\<forall>r\<in>set (sessions store1). s_id r = session_id \<longrightarrow> s_user_id r \<noteq> user_id"
    and "\<forall>r\<in>set (sessions store2). s_id r \<noteq> session_id"
  shows "get_session_detail store1 (Some user_id) session_id = not_found
       \<and> get_session_detail store2 (Some user_id) session_id = not_found"
proof -
  have "get_session_details store1 user_id session_id = None"
    using assms(2) by (rule get_session_details_None)
  moreover have "get_session_details store2 user_id session_id = None"
    using assms(3) by (intro get_session_details_None) simp
  ultimately show ?thesis by (simp add: get_session_detail_def not_found_def)
qed

theorem session_of_other_user_not_found_witness:
  "get_session_detail (store_after_save ''beginner'') (Some 1) 1 \<noteq> not_found
   \<and> get_session_detail (store_after_save ''beginner'') (Some 2) 1 = not_found
   \<and> get_session_detail empty_db (Some 2) 1 = not_found"
proof -
  have a: "\<exists>r\<in>set (sessions (store_after_save ''beginner'')). s_id r = 1"
    by (simp add: store_after_save_def)
  have b: "\<forall>r\<in>set (sessions (store_after_save ''beginner'')). s_id r = 1 \<longrightarrow> s_user_id r \<noteq> 2"
    by (simp add: store_after_save_def)
  have c: "\<forall>r\<in>set (sessions empty_db). s_id r \<noteq> 1"
    by (simp add: empty_db_def)
  have "get_session_detail (store_after_save ''beginner'') (Some 1) 1 \<noteq> not_found"
    by (simp add: get_session_detail_def get_session_details_def store_after_save_def
        not_found_def)
  with session_of_other_user_not_found [OF a b c] show ?thesis by simp
qed

section \<open>Properties of the statistics\<close>

text \<open>\<open>round_half_even\<close> gives the rounded value in the sense of \<open>nearest_even\<close>, which is unique.\<close>

lemma round_half_even_nearest: "nearest_even x (round_half_even x)"
proof -
  define f where "f = \<lfloor>x\<rfloor>"
  define d where "d = x - of_int f"
  have d: "0 \<le> d" "d < 1"
    unfolding d_def f_def by linarith+
  have x: "x = of_int f + d"
    by (simp add: d_def)
  have r: "round_half_even x =
      (if d < 1 / 2 then f else if 1 / 2 < d then f + 1 else if even f then f else f + 1)"
    by (simp only: round_half_even_def Let_def d_def f_def)
  consider "d < 1 / 2" | "1 / 2 < d" | "d = 1 / 2" "even f" | "d = 1 / 2" "odd f"
    by fastforce
  then show ?thesis
  proof cases
    case 1
    then have "round_half_even x = f"
      by (simp add: r)
    with 1 d x show ?thesis by (simp add: nearest_even_def)
  next
    case 2
    then have "round_half_even x = f + 1"
      by (simp add: r)
    with 2 d x show ?thesis by (simp add: nearest_even_def)
  next
    case 3
    then have "round_half_even x = f"
      by (simp add: r)
    with 3 x show ?thesis by (simp add: nearest_even_def)
  next
    case 4
    then have "round_half_even x = f + 1"
      by (simp add: r)
    with 4 x show ?thesis by (simp add: nearest_even_def)
  qed
qed

lemma nearest_even_unique:
  assumes "nearest_even x a" and "nearest_even x b"
  shows "a = b"
proof (rule ccontr)
  assume ne: "a \<noteq> b"
  from assms have le: "\<bar>of_int a - x\<bar> \<le> 1 / 2" "\<bar>of_int b - x\<bar> \<le> 1 / 2"
    by (auto simp: nearest_even_def)
  then have "\<bar>(of_int a :: rat) - of_int b\<bar> \<le> 1" by linarith
  then have "\<bar>a - b\<bar> \<le> 1"
    by (metis of_int_1 of_int_abs of_int_diff of_int_le_iff)
  with ne have ab: "a = b + 1 \<or> b = a + 1" by linarith
  then have "\<bar>(of_int a :: rat) - of_int b\<bar> = 1" by auto
  with le have "\<bar>of_int a - x\<bar> = 1 / 2" "\<bar>of_int b - x\<bar> = 1 / 2" by linarith+
  with assms have "even a" "even b" by (auto simp: nearest_even_def)
  with ab show False by auto
qed

lemma round_half_even_eqI: "nearest_even x a \<Longrightarrow> round_half_even x = a"
  using nearest_even_unique round_half_even_nearest by blast

lemma round_half_even_of_int [simp]: "round_half_even (of_int k) = k"
  by (rule round_half_even_eqI) (simp add: nearest_even_def)

lemma round_half_even_minus: "round_half_even (- x) = - round_half_even x"
proof (rule round_half_even_eqI)
  from round_half_even_nearest [of x] show "nearest_even (- x) (- round_half_even x)"
    by (auto simp: nearest_even_def abs_if split: if_splits)
qed

lemma floor_log2_le:
  assumes "0 < q"
  shows "power_int 2 (floor_log2 q) \<le> q"
proof -
  obtain a b where ab: "quotient_of q = (a, b)" by (cases "quotient_of q")
  then have b: "0 < b" and q: "q = of_int a / of_int b"
    by (auto dest: quotient_of_denom_pos quotient_of_div)
  with assms have a: "0 < a"
    by (simp add: zero_less_divide_iff)
  let ?k = "bitlen a - bitlen b"
  show ?thesis
  proof (cases "power_int 2 ?k \<le> q")
    case True
    with ab show ?thesis by (simp add: floor_log2_def)
  next
    case False
    from bitlen_bounds [OF a] have la: "(2::rat) ^ nat (bitlen a - 1) \<le> of_int a"
      by (metis of_int_le_iff of_int_numeral of_int_power)
    from bitlen_bounds [OF b] have lb: "of_int b \<le> (2::rat) ^ nat (bitlen b)"
      by (metis less_imp_le of_int_le_iff of_int_numeral of_int_power)
    have a1: "1 \<le> bitlen a" using a by (simp add: bitlen_alt_def)
    have e: "?k - 1 = (bitlen a - 1) - bitlen b" by linarith
    have "power_int (2::rat) (?k - 1) = power_int 2 (bitlen a - 1) / power_int 2 (bitlen b)"
      by (subst e, rule power_int_diff) simp
    also have "\<dots> = 2 ^ nat (bitlen a - 1) / 2 ^ nat (bitlen b)"
      using a1 bitlen_nonneg [of b] by (simp add: power_int_def)
    also have "\<dots> \<le> of_int a / of_int b"
      using la lb b a by (intro frac_le) simp_all
    finally show ?thesis using False ab q by (simp add: floor_log2_def)
  qed
qed


lemma floor_log2_less:
  assumes "0 < q" and "q < 2 ^ n"
  shows "floor_log2 q < int n"
proof (rule ccontr)
  assume "\<not> floor_log2 q < int n"
  then have "power_int (2::rat) (int n) \<le> power_int 2 (floor_log2 q)"
    by (intro power_int_increasing) simp_all
  with floor_log2_le [OF assms(1)] assms(2) show False by simp
qed

text \<open>
  The double nearest to the mean of small integers rounds to the same integer as the mean
  itself: first for a positive sum.
\<close>

lemma round_double_pos:
  assumes s: "0 < s" "s < 2 ^ 52" and n: "0 < n" "n < 2 ^ 53"
  shows "\<exists>d. round_double (of_int s / of_nat n) = Finite d
           \<and> round_half_even d = round_half_even (of_int s / of_nat n)"
proof -
  define q :: rat where "q = of_int s / of_nat n"
  define e where "e = max (- 1074) (floor_log2 q - 52)"
  define m where "m = round_half_even (q / power_int 2 e)"
  define d :: rat where "d = of_int m * power_int 2 e"
  define a where "a = round_half_even q"
  have n1: "(1::rat) \<le> of_nat n" using n by simp
  have q0: "0 < q" using s n by (simp add: q_def)
  have qs: "q \<le> of_int s"
    unfolding q_def using s n1 by (simp add: divide_le_eq mult_le_cancel_left1)
  have "of_int s < (2::rat) ^ 52"
    using s by (metis of_int_less_iff of_int_numeral of_int_power)
  with qs have q52: "q < 2 ^ 52" by simp
  from floor_log2_less [OF q0 q52] have f: "floor_log2 q \<le> 51" by simp
  then have e1: "e \<le> - 1" by (simp add: e_def)
  have p0: "0 < power_int (2::rat) e" by simp
  have near: "\<bar>of_int m - q / power_int 2 e\<bar> \<le> 1 / 2"
    using round_half_even_nearest [of "q / power_int 2 e"]
    by (auto simp: nearest_even_def m_def)
  have dq: "\<bar>d - q\<bar> \<le> power_int 2 e / 2"
  proof -
    have "d - q = (of_int m - q / power_int 2 e) * power_int 2 e"
      using p0 by (simp add: d_def field_simps)
    then have "\<bar>d - q\<bar> = \<bar>of_int m - q / power_int 2 e\<bar> * power_int 2 e"
      using p0 by (simp add: abs_mult)
    also have "\<dots> \<le> (1 / 2) * power_int 2 e"
      using near p0 by (intro mult_right_mono) simp_all
    finally show ?thesis by simp
  qed
  have small: "power_int (2::rat) e / 2 < 1 / (2 * of_nat n)"
  proof (cases "e = floor_log2 q - 52")
    case True
    have "power_int (2::rat) e = power_int 2 (floor_log2 q) / power_int 2 52"
      unfolding True by (rule power_int_diff) simp
    also have "\<dots> \<le> q / 2 ^ 52"
      using floor_log2_le [OF q0] by (simp add: divide_right_mono)
    finally have "power_int (2::rat) e / 2 \<le> q / 2 ^ 53" by simp
    also have "\<dots> < 1 / (2 * of_nat n)"
    proof -
      have "of_int s / (2::rat) ^ 53 < 1 / 2"
        using \<open>of_int s < (2::rat) ^ 52\<close> by simp
      then have "of_int s / (2::rat) ^ 53 / of_nat n < 1 / 2 / of_nat n"
        using n by (intro divide_strict_right_mono) simp_all
      then show ?thesis by (simp add: q_def field_simps)
    qed
    finally show ?thesis .
  next
    case False
    then have e: "e = - 1074" by (simp add: e_def max_def split: if_splits)
    have "of_nat n < (2::rat) ^ 53"
      using n by (metis of_nat_less_iff of_nat_numeral of_nat_power)
    then have "(2::rat) * of_nat n < 2 ^ 54" by simp
    then have "1 / (2::rat) ^ 54 < 1 / (2 * of_nat n)"
      using n by (intro divide_strict_left_mono) simp_all
    moreover have "power_int (2::rat) e / 2 \<le> 1 / 2 ^ 54"
      unfolding e by (simp add: power_int_minus field_simps)
    ultimately show ?thesis by simp
  qed
  have fin: "d < 2 ^ 1024"
  proof -
    have "power_int (2::rat) e \<le> power_int 2 (- 1)"
      using e1 by (intro power_int_increasing) simp_all
    then have "power_int (2::rat) e / 2 \<le> 1" by simp
    with dq q52 have "d < 2 ^ 52 + 1" by linarith
    also have "\<dots> < (2::rat) ^ 1024" by simp
    finally show ?thesis .
  qed
  have rd: "round_double q = Finite d"
    using q0 fin
    by (simp add: round_double_def Let_def e_def [symmetric] m_def [symmetric] d_def [symmetric]
        abs_of_pos)
  have "nearest_even d a"
  proof (cases "\<bar>of_int a - q\<bar> < 1 / 2")
    case True
    have "of_int a - q = of_int (a * int n - s) / of_nat n"
      using n by (simp add: q_def field_simps)
    then have "\<bar>of_int a - q\<bar> = of_int \<bar>a * int n - s\<bar> / of_nat n"
      by (simp add: abs_divide)
    with True have "of_int \<bar>a * int n - s\<bar> * 2 < (of_nat n :: rat)"
      using n by (simp add: field_simps)
    then have "of_int (\<bar>a * int n - s\<bar> * 2) < (of_int (int n) :: rat)"
      by simp
    then have "\<bar>a * int n - s\<bar> * 2 < int n"
      by (simp only: of_int_less_iff)
    then have "\<bar>a * int n - s\<bar> * 2 + 1 \<le> int n" by simp
    then have "(of_int (\<bar>a * int n - s\<bar> * 2 + 1) :: rat) \<le> of_int (int n)"
      by (simp only: of_int_le_iff)
    then have "of_int \<bar>a * int n - s\<bar> * 2 + 1 \<le> (of_nat n :: rat)"
      by simp
    then have "of_int \<bar>a * int n - s\<bar> / of_nat n \<le> (1 / 2 - 1 / (2 * of_nat n) :: rat)"
      using n by (simp add: field_simps)
    with \<open>\<bar>of_int a - q\<bar> = of_int \<bar>a * int n - s\<bar> / of_nat n\<close>
    have "\<bar>of_int a - q\<bar> \<le> 1 / 2 - 1 / (2 * of_nat n)" by simp
    with dq small have "\<bar>of_int a - d\<bar> < 1 / 2" by linarith
    then show ?thesis by (simp add: nearest_even_def)
  next
    case False
    with round_half_even_nearest [of q] have tie: "\<bar>of_int a - q\<bar> = 1 / 2" "even a"
      by (auto simp: nearest_even_def a_def)
    then obtain j :: int where j: "q = of_int j / 2"
    proof -
      from tie(1) have "q = of_int (2 * a + 1) / 2 \<or> q = of_int (2 * a - 1) / 2"
        by (auto simp: abs_if field_simps split: if_splits)
      then show ?thesis using that by blast
    qed
    have "0 \<le> - e - 1" using e1 by simp
    have "q / power_int 2 e = of_int j * power_int 2 (- e - 1)"
    proof -
      have "power_int (2::rat) (- e - 1) = power_int 2 (- e) / power_int 2 1"
        by (rule power_int_diff) simp
      then show ?thesis by (simp add: j power_int_minus field_simps)
    qed
    also have "power_int (2::rat) (- e - 1) = 2 ^ nat (- e - 1)"
      using \<open>0 \<le> - e - 1\<close> by (simp add: power_int_def)
    also have "of_int j * (2::rat) ^ nat (- e - 1) = of_int (j * 2 ^ nat (- e - 1))"
      by simp
    finally have "m = j * 2 ^ nat (- e - 1)"
      by (simp only: m_def round_half_even_of_int)
    then have "of_int m = q / power_int 2 e"
      using \<open>q / power_int 2 e = of_int j * power_int 2 (- e - 1)\<close>
        \<open>power_int (2::rat) (- e - 1) = 2 ^ nat (- e - 1)\<close> by simp
    then have "d = q" using p0 by (simp add: d_def)
    with round_half_even_nearest [of q] show ?thesis by (simp add: a_def)
  qed
  then have "round_half_even d = a" by (rule round_half_even_eqI)
  with rd show ?thesis by (simp add: q_def a_def)
qed

lemma round_double_minus:
  assumes "0 < q" and "round_double q = Finite d"
  shows "round_double (- q) = Finite (- d)"
  using assms by (auto simp: round_double_def Let_def split: if_splits)

lemma round_double_mean:
  assumes s: "\<bar>s\<bar> < 2 ^ 52" and n: "0 < n" "n < 2 ^ 53"
  shows "\<exists>d. round_double (of_int s / of_nat n) = Finite d
           \<and> round_half_even d = round_half_even (of_int s / of_nat n)"
proof -
  consider "s = 0" | "0 < s" | "s < 0" by linarith
  then show ?thesis
  proof cases
    case 1
    then show ?thesis by (simp add: round_double_def)
  next
    case 2
    with s have "s < 2 ^ 52" by simp
    from round_double_pos [OF 2 this n] show ?thesis .
  next
    case 3
    define q :: rat where "q = of_int (- s) / of_nat n"
    from 3 s have p: "0 < - s" "- s < 2 ^ 52" by simp_all
    from round_double_pos [OF p n] obtain d where
      d: "round_double q = Finite d" "round_half_even d = round_half_even q"
      unfolding q_def by blast
    have q0: "0 < q"
      unfolding q_def using p n by (intro divide_pos_pos) simp_all
    from round_double_minus [OF q0 d(1)] have "round_double (- q) = Finite (- d)" .
    moreover have "round_half_even (- d) = round_half_even (- q)"
      using d(2) by (simp add: round_half_even_minus)
    moreover have "- q = of_int s / of_nat n"
      by (simp add: q_def)
    ultimately show ?thesis by simp
  qed
qed

text \<open>The average of small integer scores, as the route rounds it.\<close>

lemma filter_not_null_ints: "list_all is_int xs \<Longrightarrow> filter (\<lambda>v. v \<noteq> SNull) xs = xs"
proof (induction xs)
  case Nil
  then show ?case by simp
next
  case (Cons v xs)
  then show ?case by (cases v) simp_all
qed

lemma sql_avg_small_integers:
  assumes "small_integers scores" and "scores \<noteq> []"
  shows "sql_avg approx scores = Some (round_double (mean scores))"
  using assms
  by (simp add: sql_avg_def small_integers_def filter_not_null_ints mean_def
      order_less_trans [of _ "2 ^ 52" "2 ^ 53"])

lemma abs_sum_list_le: "\<bar>sum_list (map int_value xs)\<bar> \<le> sum_list (map (\<lambda>v. \<bar>int_value v\<bar>) xs)"
  by (induction xs) auto

lemma rounded_average_small_integers:
  assumes "small_integers scores"
  shows "\<exists>a. (case sql_avg approx scores of Some x \<Rightarrow> py_round x | None \<Rightarrow> Inr 0) = Inr a
           \<and> is_average scores a"
proof (cases "scores = []")
  case True
  then show ?thesis by (simp add: sql_avg_def is_average_def)
next
  case False
  from assms have s: "\<bar>sum_list (map int_value scores)\<bar> < 2 ^ 52"
    using abs_sum_list_le [of scores] by (simp add: small_integers_def)
  from assms False have n: "0 < length scores" "length scores < 2 ^ 53"
    by (simp_all add: small_integers_def)
  from round_double_mean [OF s n] obtain d where
    d: "round_double (mean scores) = Finite d" "round_half_even d = round_half_even (mean scores)"
    by (auto simp: mean_def)
  with sql_avg_small_integers [OF assms False, of approx] False
    round_half_even_nearest [of "mean scores"]
  show ?thesis by (simp add: is_average_def)
qed

lemma sql_eq_text [simp]: "sql_eq v (SText s) \<longleftrightarrow> v = SText s"
proof (cases v)
  case (SReal x)
  then show ?thesis by (cases x) auto
qed auto

lemma level_rows_tier_sessions: "level_rows store user_id tier = tier_sessions store user_id tier"
  by (simp add: level_rows_def tier_sessions_def)

lemma level_stats_small_integers:
  assumes "small_integers (tier_scores store user_id tier)"
  shows "\<exists>a. level_stats approx store user_id tier =
               Inr (entry a (length (tier_sessions store user_id tier)))
           \<and> is_average (tier_scores store user_id tier) a"
  using rounded_average_small_integers [OF assms, of approx]
  by (auto simp: level_stats_def level_rows_tier_sessions tier_scores_def entry_def Let_def)

lemma level_stats_Inr:
  assumes "level_stats approx store user_id tier = Inr e"
  shows "\<exists>a. e = entry a (length (tier_sessions store user_id tier))
           \<and> (tier_sessions store user_id tier = [] \<longrightarrow> a = 0)"
  using assms
  by (auto simp: level_stats_def level_rows_tier_sessions entry_def Let_def and_then_Inr
      sql_avg_def)

lemma get_tracking_stats_Inr:
  "get_tracking_stats approx store user_id = Inr stats \<longleftrightarrow>
     (\<exists>b i p. level_stats approx store user_id ''beginner'' = Inr b
        \<and> level_stats approx store user_id ''intermediate'' = Inr i
        \<and> level_stats approx store user_id ''proficient'' = Inr p
        \<and> stats = JObj [(''beginner'', b), (''intermediate'', i), (''proficient'', p)])"
  by (auto simp: get_tracking_stats_def levels_def and_then_Inr)

text \<open>
  C7, as amended. Whenever the statistics of a user are returned, they are a dict with
  exactly the three tiers as keys, each with the number of that user's sessions in that
  tier as its count, and a tier in which the user has no session has average 0 and count
  0. They are returned, and the average of each tier is the integer nearest to the mean of
  the scores of that user's sessions in that tier (the even one when the mean lies halfway
  between two integers), whenever the user's scores in each of the three tiers are
  integers whose absolute values add up to less than \<open>2 ^ 52\<close>, over fewer than \<open>2 ^ 53\<close>
  sessions.
\<close>

theorem tracking_stats_per_tier:
  "(\<forall>stats. get_tracking_stats approx store user_id = Inr stats \<longrightarrow>
      (\<exists>b i p. stats =
          JObj [(''beginner'', entry b (length (tier_sessions store user_id ''beginner''))),
                (''intermediate'', entry i (length (tier_sessions store user_id ''intermediate''))),
                (''proficient'', entry p (length (tier_sessions store user_id ''proficient'')))])
      \<and> (\<forall>tier\<in>set levels. tier_sessions store user_id tier = []
            \<longrightarrow> getitem_key stats tier = Inr (entry 0 0)))
   \<and> ((\<forall>tier\<in>set levels. small_integers (tier_scores store user_id tier)) \<longrightarrow>
        (\<exists>b i p. get_tracking_stats approx store user_id =
            Inr (JObj [(''beginner'', entry b (length (tier_sessions store user_id ''beginner''))),
                       (''intermediate'', entry i (length (tier_sessions store user_id ''intermediate''))),
                       (''proficient'', entry p (length (tier_sessions store user_id ''proficient'')))])
           \<and> is_average (tier_scores store user_id ''beginner'') b
           \<and> is_average (tier_scores store user_id ''intermediate'') i
           \<and> is_average (tier_scores store user_id ''proficient'') p))"
proof (intro conjI allI impI)
  fix stats
  assume "get_tracking_stats approx store user_id = Inr stats"
  then obtain eb ei ep where
    l: "level_stats approx store user_id ''beginner'' = Inr eb"
      "level_stats approx store user_id ''intermediate'' = Inr ei"
      "level_stats approx store user_id ''proficient'' = Inr ep" and
    stats: "stats = JObj [(''beginner'', eb), (''intermediate'', ei), (''proficient'', ep)]"
    by (auto simp: get_tracking_stats_Inr)
  from level_stats_Inr [OF l(1)] level_stats_Inr [OF l(2)] level_stats_Inr [OF l(3)]
  obtain b i p where
    e: "eb = entry b (length (tier_sessions store user_id ''beginner''))"
      "ei = entry i (length (tier_sessions store user_id ''intermediate''))"
      "ep = entry p (length (tier_sessions store user_id ''proficient''))" and
    z: "tier_sessions store user_id ''beginner'' = [] \<longrightarrow> b = 0"
      "tier_sessions store user_id ''intermediate'' = [] \<longrightarrow> i = 0"
      "tier_sessions store user_id ''proficient'' = [] \<longrightarrow> p = 0"
    by blast
  from stats e show "\<exists>b i p. stats =
          JObj [(''beginner'', entry b (length (tier_sessions store user_id ''beginner''))),
                (''intermediate'', entry i (length (tier_sessions store user_id ''intermediate''))),
                (''proficient'', entry p (length (tier_sessions store user_id ''proficient'')))]"
    by blast
  from stats e z show "\<forall>tier\<in>set levels. tier_sessions store user_id tier = []
            \<longrightarrow> getitem_key stats tier = Inr (entry 0 0)"
    by (auto simp: levels_def)
next
  assume small: "\<forall>tier\<in>set levels. small_integers (tier_scores store user_id tier)"
  then have
    "small_integers (tier_scores store user_id ''beginner'')"
    "small_integers (tier_scores store user_id ''intermediate'')"
    "small_integers (tier_scores store user_id ''proficient'')"
    by (simp_all add: levels_def)
  from level_stats_small_integers [OF this(1), of approx]
    level_stats_small_integers [OF this(2), of approx]
    level_stats_small_integers [OF this(3), of approx]
  obtain b i p where
    "level_stats approx store user_id ''beginner'' =
       Inr (entry b (length (tier_sessions store user_id ''beginner'')))"
    "level_stats approx store user_id ''intermediate'' =
       Inr (entry i (length (tier_sessions store user_id ''intermediate'')))"
    "level_stats approx store user_id ''proficient'' =
       Inr (entry p (length (tier_sessions store user_id ''proficient'')))"
    "is_average (tier_scores store user_id ''beginner'') b"
    "is_average (tier_scores store user_id ''intermediate'') i"
    "is_average (tier_scores store user_id ''proficient'') p"
    by blast
  then show "\<exists>b i p. get_tracking_stats approx store user_id =
            Inr (JObj [(''beginner'', entry b (length (tier_sessions store user_id ''beginner''))),
                       (''intermediate'', entry i (length (tier_sessions store user_id ''intermediate''))),
                       (''proficient'', entry p (length (tier_sessions store user_id ''proficient'')))])
           \<and> is_average (tier_scores store user_id ''beginner'') b
           \<and> is_average (tier_scores store user_id ''intermediate'') i
           \<and> is_average (tier_scores store user_id ''proficient'') p"
    by (auto simp: get_tracking_stats_Inr)
qed

theorem tracking_stats_per_tier_witness:
  "list_all (\<lambda>tier. small_integers (tier_scores four_sessions 1 tier)) levels
   \<and> tier_scores four_sessions 1 ''beginner'' = [SInt 80, SInt 75]
   \<and> mean [SInt 80, SInt 75] = 155 / 2
   \<and> get_tracking_stats no_approx four_sessions 1 =
       Inr (JObj [(''beginner'', entry 78 2), (''intermediate'', entry 0 0),
                  (''proficient'', entry 0 0)])"
proof -
  have sc: "tier_scores four_sessions 1 ''beginner'' = [SInt 80, SInt 75]"
    "tier_scores four_sessions 1 ''intermediate'' = []"
    "tier_scores four_sessions 1 ''proficient'' = []"
    by (simp_all add: tier_scores_def tier_sessions_def four_sessions_def)
  have len: "length (tier_sessions four_sessions 1 ''beginner'') = 2"
    "length (tier_sessions four_sessions 1 ''intermediate'') = 0"
    "length (tier_sessions four_sessions 1 ''proficient'') = 0"
    by (simp_all add: tier_sessions_def four_sessions_def)
  have small: "\<forall>tier\<in>set levels. small_integers (tier_scores four_sessions 1 tier)"
    using sc by (simp add: levels_def small_integers_def)
  have m: "mean [SInt 80, SInt 75] = 155 / 2"
    by (simp add: mean_def)
  from tracking_stats_per_tier [of no_approx four_sessions 1] small obtain b i p where
    r: "get_tracking_stats no_approx four_sessions 1 =
          Inr (JObj [(''beginner'', entry b 2), (''intermediate'', entry i 0),
                     (''proficient'', entry p 0)])" and
    av: "is_average [SInt 80, SInt 75] b" "is_average [] i" "is_average [] p"
    unfolding sc len by blast
  have "nearest_even (155 / 2) 78"
    by (simp add: nearest_even_def)
  with av(1) m have "b = 78"
    by (auto simp: is_average_def intro: nearest_even_unique)
  with r av(2,3) small sc(1) m show ?thesis
    by (simp add: is_average_def list_all_iff)
qed

text \<open>
  C7, as stated, fails: after user 1 has saved a session of the tier \<open>beginner\<close> with the
  score \<^verbatim>\<open>1e999\<close>, the user has no session in the tier \<open>proficient\<close>, and the statistics
  are not a mapping with average 0 and count 0 for that tier: \<^verbatim>\<open>round\<close> raises
  \<open>OverflowError\<close> and the route answers with the exception.
\<close>

theorem tracking_stats_infinite_score_counterexample:
  "save_session empty_db (Some 1) infinite_score_session ''2024-05-01 10:00:00'' =
     (Reply 201 (JObj [(''message'', JStr ''Session saved successfully.'')]), infinite_score_store)
   \<and> tier_sessions infinite_score_store 1 ''proficient'' = []
   \<and> get_tracking_stats no_approx infinite_score_store 1 = Inl OverflowError
   \<and> get_tracking_data no_approx infinite_score_store (Some 1) = Unhandled OverflowError"
  by (simp add: save_session_def save_session_data_def insert_header_def insert_words_def
      insert_quiz_def infinite_score_session_def infinite_score_store_def get_db_def commit_def
      close_db_def empty_db_def next_rowid_def tier_sessions_def get_tracking_data_def
      get_tracking_stats_def levels_def level_stats_def level_rows_def sql_avg_def)

section \<open>Properties of the mode of a session\<close>

lemma level_rows_append:
  "level_rows (store\<lparr>sessions := sessions store @ [row], words := ws, quizzes := qs\<rparr>) user_id level
   = level_rows store user_id level
     @ (if s_user_id row = user_id \<and> s_mode row = SText level then [row] else [])"
  by (simp add: level_rows_def)

text \<open>
  C10. A request that saves a session whose mode is a string outside the three tiers is
  accepted like any other: the header is stored with that mode, the list of the user's
  sessions shows the new session with that mode, and the statistics of every user are
  what they were before.
\<close>

theorem session_of_unknown_mode:
  assumes "save_session store (Some user_id) data now = (reply, store')"
    and "status reply = 201"
    and "getitem_key data ''mode'' = Inr (JStr mode)"
    and "mode \<notin> set levels"
  shows "(\<exists>row\<in>set (sessions store'). s_id row = next_rowid (map s_id (sessions store))
            \<and> s_user_id row = user_id \<and> s_mode row = SText mode)
       \<and> (\<exists>summary\<in>set (get_user_sessions store' user_id).
            getitem_key summary ''id'' = Inr (JNum (int (next_rowid (map s_id (sessions store)))))
            \<and> getitem_key summary ''mode'' = Inr (JStr mode))
       \<and> (\<forall>u. get_tracking_stats approx store' u = get_tracking_stats approx store u)"
proof -
  let ?sid = "next_rowid (map s_id (sessions store))"
  from save_session_201 [OF assms(1,2)] obtain v c where
    s: "save_session_data user_id data now (get_db store) = (Inr v, c)" and
    store': "store' = committed c"
    by blast
  from save_session_data_Inr [OF s] assms(3) obtain sc rows quiz where
    c: "committed c = store\<lparr>
          sessions := sessions store @
            [\<lparr>s_id = ?sid, s_user_id = user_id, s_mode = SText mode, s_score_percent = sc,
              s_date = now\<rparr>],
          words := words store @ rows,
          quizzes := quizzes store @ [\<lparr>q_session_id = ?sid, q_quiz_data = quiz\<rparr>]\<rparr>"
    by (auto simp: get_db_def)
  let ?row = "\<lparr>s_id = ?sid, s_user_id = user_id, s_mode = SText mode, s_score_percent = sc,
               s_date = now\<rparr>"
  have row: "?row \<in> set (sessions store')"
    unfolding store' c by simp
  then have first: "\<exists>row\<in>set (sessions store'). s_id row = ?sid
            \<and> s_user_id row = user_id \<and> s_mode row = SText mode"
    by (intro bexI [of _ ?row]) simp_all
  have "session_summary ?row \<in> set (get_user_sessions store' user_id)"
    using row by (simp add: get_user_sessions_def)
  then have second: "\<exists>summary\<in>set (get_user_sessions store' user_id).
            getitem_key summary ''id'' = Inr (JNum (int ?sid))
            \<and> getitem_key summary ''mode'' = Inr (JStr mode)"
    by (intro bexI [of _ "session_summary ?row"]) (simp_all add: session_summary_def)
  have "level_rows store' u level = level_rows store u level" if "level \<in> set levels" for u level
    using that assms(4) unfolding store' c by (auto simp: level_rows_append)
  then have "level_stats approx store' u level = level_stats approx store u level"
    if "level \<in> set levels" for u level
    using that by (simp add: level_stats_def)
  then have third: "\<forall>u. get_tracking_stats approx store' u = get_tracking_stats approx store u"
    by (simp add: get_tracking_stats_def levels_def)
  from first second third show ?thesis by blast
qed

theorem session_of_unknown_mode_witness:
  "save_session empty_db (Some 1) (one_word_session ''expert'') time1 =
     (Reply 201 (JObj [(''message'', JStr ''Session saved successfully.'')]), store_after_save ''expert'')
   \<and> ''expert'' \<notin> set levels
   \<and> get_user_sessions (store_after_save ''expert'') 1 =
       [JObj [(''id'', JNum 1), (''mode'', JStr ''expert''), (''score_percent'', JNum 80),
              (''date_formatted'', JStr ''2024-05-01 10:00'')]]
   \<and> get_tracking_stats no_approx (store_after_save ''expert'') 1 = get_tracking_stats no_approx empty_db 1"
proof -
  have st: "status (Reply 201 (JObj [(''message'', JStr ''Session saved successfully.'')])) = 201"
    by simp
  have m: "getitem_key (one_word_session ''expert'') ''mode'' = Inr (JStr ''expert'')"
    by (simp add: one_word_session_def)
  have n: "''expert'' \<notin> set levels"
    by (simp add: levels_def)
  from session_of_unknown_mode [OF save_one_word_session st m n, of no_approx]
  have "get_tracking_stats no_approx (store_after_save ''expert'') 1 = get_tracking_stats no_approx empty_db 1"
    by blast
  moreover have "get_user_sessions (store_after_save ''expert'') 1 =
       [JObj [(''id'', JNum 1), (''mode'', JStr ''expert''), (''score_percent'', JNum 80),
              (''date_formatted'', JStr ''2024-05-01 10:00'')]]"
    by (simp add: get_user_sessions_def store_after_save_def session_summary_def time1_def)
  ultimately show ?thesis using save_one_word_session n by simp
qed

section \<open>Properties of the registration\<close>

text \<open>The route, case by case, for a request whose body is a dict.\<close>

lemma register_result:
  assumes "dict_get data ''username'' = Inr username" and "dict_get data ''password'' = Inr password"
  shows "register password_hash fmt store data =
     (if \<not> truthy username \<or> \<not> truthy password then
        (Reply 400 (JObj [(''error'', JStr ''Username and password are required.'')]), store)
      else
        (case bind_param username of
           Inl e \<Rightarrow> (Unhandled e, store)
         | Inr name \<Rightarrow>
             (if find (\<lambda>u. sql_eq (u_username u) name) (users store) \<noteq> None then
                (Reply 409 (JObj [(''error'',
                   JStr (''User '' @ py_format fmt username @ '' is already registered.''))]), store)
              else
                (case hash_password password_hash password of
                   Inl e \<Rightarrow> (Unhandled e, store)
                 | Inr hashed \<Rightarrow>
                     (Reply 201 (JObj [(''message'', JStr ''Registration successful!'')]),
                      store\<lparr>users := users store @
                        [\<lparr>u_id = next_rowid (map u_id (users store)), u_username = name,
                          u_password = hashed\<rparr>]\<rparr>)))))"
  using assms
  by (auto simp: register_def register_user_def get_db_def close_db_def commit_def Let_def
      split: sum.splits)

lemma already_registered_find:
  assumes "bind_param username = Inr name"
  shows "already_registered store username \<longleftrightarrow>
           find (\<lambda>u. sql_eq (u_username u) name) (users store) \<noteq> None"
  using assms by (auto simp: already_registered_def find_None_iff list_ex_iff)

lemma not_already_registered_unbound:
  "bind_param username = Inl e \<Longrightarrow> \<not> already_registered store username"
  by (simp add: already_registered_def)

text \<open>
  C9, as amended. For a request whose body is a dict: the answer is 400, and the store
  unchanged, whenever the username or the password is missing or counts as false (\<open>null\<close>,
  the empty string), also for a registered username; otherwise the answer is 409, and the
  store unchanged, whenever the username is already registered; otherwise, when the
  username and the password are strings, the user is added and the answer is 201, after
  which a second registration of the same username with any password that counts as true
  is answered 409.
\<close>

theorem register_statuses:
  assumes "dict_get data ''username'' = Inr username"
    and "dict_get data ''password'' = Inr password"
    and "register password_hash fmt store data = (reply, store')"
  shows "(\<not> truthy username \<or> \<not> truthy password \<longrightarrow> status reply = 400 \<and> store' = store)
    \<and> (truthy username \<and> truthy password \<longrightarrow>
         (already_registered store username \<longrightarrow> status reply = 409 \<and> store' = store)
       \<and> (\<not> already_registered store username \<longrightarrow>
            (\<forall>name p. username = JStr name \<and> password = JStr p \<longrightarrow>
               status reply = 201
               \<and> store' = store\<lparr>users := users store @
                    [\<lparr>u_id = next_rowid (map u_id (users store)), u_username = SText name,
                      u_password = SText (password_hash p)\<rparr>]\<rparr>
               \<and> (\<forall>data2 password2.
                     dict_get data2 ''username'' = Inr username
                     \<and> dict_get data2 ''password'' = Inr password2 \<and> truthy password2
                     \<longrightarrow> status (fst (register password_hash fmt store' data2)) = 409
                         \<and> snd (register password_hash fmt store' data2) = store'))))"
proof (intro conjI impI allI)
  assume "\<not> truthy username \<or> \<not> truthy password"
  with assms(3) register_result [OF assms(1,2), of password_hash fmt store]
  show "status reply = 400" and "store' = store" by auto
next
  assume t: "truthy username \<and> truthy password" and r: "already_registered store username"
  from r obtain name where b: "bind_param username = Inr name"
    by (cases "bind_param username") (auto simp: already_registered_def)
  with r have "find (\<lambda>u. sql_eq (u_username u) name) (users store) \<noteq> None"
    by (simp add: already_registered_find)
  with t b assms(3) register_result [OF assms(1,2), of password_hash fmt store]
  show "status reply = 409" and "store' = store" by auto
next
  fix name p
  assume t: "truthy username \<and> truthy password" and n: "\<not> already_registered store username"
    and up: "username = JStr name \<and> password = JStr p"
  then have b: "bind_param username = Inr (SText name)" by simp
  with n have f: "find (\<lambda>u. sql_eq (u_username u) (SText name)) (users store) = None"
    by (simp add: already_registered_find)
  with t b up assms(3) register_result [OF assms(1,2), of password_hash fmt store]
  show "status reply = 201" by auto
  from f t b up assms(3) register_result [OF assms(1,2), of password_hash fmt store]
  show s: "store' = store\<lparr>users := users store @
                    [\<lparr>u_id = next_rowid (map u_id (users store)), u_username = SText name,
                      u_password = SText (password_hash p)\<rparr>]\<rparr>"
    by auto
  fix data2 password2
  assume d: "dict_get data2 ''username'' = Inr username
      \<and> dict_get data2 ''password'' = Inr password2 \<and> truthy password2"
  have "find (\<lambda>u. sql_eq (u_username u) (SText name)) (users store') \<noteq> None"
    unfolding s by (auto simp: find_None_iff)
  with t b d register_result [of data2 username password2 password_hash fmt store']
  show "status (fst (register password_hash fmt store' data2)) = 409"
    and "snd (register password_hash fmt store' data2) = store'"
    by auto
qed

lemma register_alice:
  "register toy_hash toy_format empty_db (credentials ''alice'' ''secret123'') =
     (Reply 201 (JObj [(''message'', JStr ''Registration successful!'')]), alice_store)"
  by (simp add: register_def register_user_def credentials_def get_db_def close_db_def
      commit_def empty_db_def alice_store_def toy_hash_def next_rowid_def Let_def)

theorem register_statuses_witness:
  "register toy_hash toy_format empty_db (credentials ''alice'' ''secret123'') =
     (Reply 201 (JObj [(''message'', JStr ''Registration successful!'')]), alice_store)
   \<and> \<not> already_registered empty_db (JStr ''alice'')
   \<and> already_registered alice_store (JStr ''alice'')
   \<and> status (fst (register toy_hash toy_format alice_store (credentials ''alice'' ''other''))) = 409
   \<and> snd (register toy_hash toy_format alice_store (credentials ''alice'' ''other'')) = alice_store"
proof -
  have u: "dict_get (credentials ''alice'' ''secret123'') ''username'' = Inr (JStr ''alice'')"
    and p: "dict_get (credentials ''alice'' ''secret123'') ''password'' = Inr (JStr ''secret123'')"
    and u2: "dict_get (credentials ''alice'' ''other'') ''username'' = Inr (JStr ''alice'')"
    and p2: "dict_get (credentials ''alice'' ''other'') ''password'' = Inr (JStr ''other'')"
    by (simp_all add: credentials_def)
  have t: "truthy (JStr ''alice'') \<and> truthy (JStr ''secret123'')" "truthy (JStr ''other'')"
    by simp_all
  have n: "\<not> already_registered empty_db (JStr ''alice'')"
    by (simp add: already_registered_def empty_db_def)
  have a: "already_registered alice_store (JStr ''alice'')"
    by (simp add: already_registered_def alice_store_def)
  from register_statuses [OF u p register_alice] t n u2 p2
  have "status (fst (register toy_hash toy_format alice_store (credentials ''alice'' ''other''))) = 409
      \<and> snd (register toy_hash toy_format alice_store (credentials ''alice'' ''other'')) = alice_store"
    by blast
  with register_alice n a show ?thesis by simp
qed

text \<open>
  C9, as stated, fails: with \<open>alice\<close> registered, the request with the username
  \<open>alice\<close> and the empty string as password, both fields present, is answered 400 and
  not 409.
\<close>

theorem register_empty_password_counterexample:
  "SText ''alice'' \<in> set (map u_username (users alice_store))
   \<and> getitem_key (credentials ''alice'' '''') ''username'' = Inr (JStr ''alice'')
   \<and> getitem_key (credentials ''alice'' '''') ''password'' = Inr (JStr '''')
   \<and> register toy_hash toy_format alice_store (credentials ''alice'' '''') =
       (Reply 400 (JObj [(''error'', JStr ''Username and password are required.'')]), alice_store)
   \<and> status (fst (register toy_hash toy_format alice_store (credentials ''alice'' ''''))) \<noteq> 409"
  by (simp add: register_def register_user_def credentials_def get_db_def close_db_def
      alice_store_def)

section \<open>When the word-set build answers\<close>

text \<open>
  The build answers 200 whenever no lookup raises and every answer of Datamuse that counts
  as true is a list whose first five elements have a \<open>word\<close>.
\<close>

lemma get_word_details_fst:
  "fst (get_word_details ucap net word w) = word_details ucap word (fst (net (env w) (DictionaryGet word)))"
  by (simp add: get_word_details_def requests_get_def split: prod.splits)

lemma probe_no_raise:
  assumes "\<forall>e word x. word_details ucap word (fst (net e (DictionaryGet word))) \<noteq> Inl x"
    and "\<forall>c\<in>set cands. \<exists>v. getitem_key c ''word'' = Inr v"
  shows "\<exists>res w'. probe ucap net letter cands w = (Inr res, w')"
  using assms(2)
proof (induction cands arbitrary: w)
  case Nil
  then show ?case by simp
next
  case (Cons c cands)
  then obtain word where word: "getitem_key c ''word'' = Inr word" by auto
  obtain g w1 where g: "get_word_details ucap net word w = (g, w1)"
    by (cases "get_word_details ucap net word w")
  with get_word_details_fst [of ucap net word w] assms(1) have "\<forall>x. g \<noteq> Inl x"
    by (metis fst_conv)
  then obtain found where "g = Inr found"
    by (cases g) auto
  with word g Cons show ?case
    by (cases found) auto
qed

lemma use_fallback_no_raise:
  assumes "\<forall>e word x. word_details ucap word (fst (net e (DictionaryGet word))) \<noteq> Inl x"
    and "letter \<in> set ascii_uppercase"
  shows "\<exists>res w'. use_fallback ucap net letter w = (Inr res, w')"
proof -
  from fallback_words_total [OF assms(2)] obtain fw where fw: "map_of fallback_words letter = Some fw"
    by blast
  obtain g w1 where g: "get_word_details ucap net (JStr fw) w = (g, w1)"
    by (cases "get_word_details ucap net (JStr fw) w")
  with get_word_details_fst [of ucap net "JStr fw" w] assms(1) have "\<forall>x. g \<noteq> Inl x"
    by (metis fst_conv)
  then obtain found where "g = Inr found"
    by (cases g) auto
  with fw g show ?thesis
    by (cases found) (auto simp: use_fallback_def)
qed

lemma letter_step_no_raise:
  assumes lookups: "\<forall>e word x. word_details ucap word (fst (net e (DictionaryGet word))) \<noteq> Inl x"
    and lists: "\<forall>e sp md mx pw.
        response_json (fst (net e (DatamuseGet sp md mx))) = Inr pw \<and> truthy pw
        \<longrightarrow> (\<exists>xs. pw = JArr xs \<and> (\<forall>c\<in>set (take 5 xs). \<exists>v. getitem_key c ''word'' = Inr v))"
    and letter: "letter \<in> set ascii_uppercase"
  shows "\<exists>res w'. letter_step ucap net params letter w = (Inr res, w')"
proof -
  obtain r w1 where rq: "requests_get net (datamuse_query params letter) w = (r, w1)"
    by (cases "requests_get net (datamuse_query params letter) w")
  then have r: "r = fst (net (env w) (datamuse_query params letter))"
    by (auto simp: requests_get_def split: prod.splits)
  have "\<exists>q w2. query_candidates ucap net params letter w = (q, w2)
      \<and> (q = Inl RequestException \<or> (\<exists>found. q = Inr found))"
  proof (cases "response_json r")
    case (Inl e)
    then have "e = RequestException"
      by (cases r) (auto split: if_splits option.splits)
    with Inl rq show ?thesis by (simp add: letter_step_datamuse_query)
  next
    case (Inr pw)
    show ?thesis
    proof (cases "truthy pw")
      case False
      with Inr rq show ?thesis by (simp add: letter_step_datamuse_query)
    next
      case True
      with Inr r lists obtain xs where
        xs: "pw = JArr xs" "\<forall>c\<in>set (take 5 xs). \<exists>v. getitem_key c ''word'' = Inr v"
        unfolding datamuse_query_def by blast
      from probe_no_raise [OF lookups xs(2), of letter w1] Inr True rq xs(1)
      show ?thesis by (auto simp: letter_step_datamuse_query)
    qed
  qed
  then obtain q w2 where q: "query_candidates ucap net params letter w = (q, w2)"
    "q = Inl RequestException \<or> (\<exists>found. q = Inr found)"
    by blast
  from use_fallback_no_raise [OF lookups letter, of w2] q show ?thesis
    by (auto simp: letter_step_def split: option.splits)
qed

lemma words_loop_no_raise:
  assumes lookups: "\<forall>e word x. word_details ucap word (fst (net e (DictionaryGet word))) \<noteq> Inl x"
    and lists: "\<forall>e sp md mx pw.
        response_json (fst (net e (DatamuseGet sp md mx))) = Inr pw \<and> truthy pw
        \<longrightarrow> (\<exists>xs. pw = JArr xs \<and> (\<forall>c\<in>set (take 5 xs). \<exists>v. getitem_key c ''word'' = Inr v))"
    and "set letters \<subseteq> set ascii_uppercase"
  shows "\<exists>ws w'. words_loop ucap net params letters words_list w = (Inr ws, w')"
  using assms(3)
proof (induction letters arbitrary: words_list w)
  case Nil
  then show ?case by simp
next
  case (Cons letter letters)
  then have "letter \<in> set ascii_uppercase" by simp
  from letter_step_no_raise [OF lookups lists this, of params w] obtain res w1 where
    "letter_step ucap net params letter w = (Inr res, w1)"
    by blast
  with Cons show ?case by (cases res) auto
qed

lemma get_words_answers_200:
  assumes "\<forall>e word x. word_details ucap word (fst (net e (DictionaryGet word))) \<noteq> Inl x"
    and "\<forall>e sp md mx pw.
        response_json (fst (net e (DatamuseGet sp md mx))) = Inr pw \<and> truthy pw
        \<longrightarrow> (\<exists>xs. pw = JArr xs \<and> (\<forall>c\<in>set (take 5 xs). \<exists>v. getitem_key c ''word'' = Inr v))"
  shows "\<exists>ws w'. get_words ucap net (Some user_id) level w = (Reply 200 (JArr ws), w')"
proof -
  from words_loop_no_raise [OF assms, of ascii_uppercase "params_of level" "[]" w]
  obtain ws w' where "words_loop ucap net (params_of level) ascii_uppercase [] w = (Inr ws, w')"
    by auto
  then show ?thesis by (simp add: get_words_def)
qed

text \<open>A registration changes the users only, so it keeps \<open>references_ok\<close> as well.\<close>

lemma register_references_ok:
  assumes "references_ok store" and "register password_hash fmt store data = (reply, store')"
  shows "references_ok store'"
proof -
  have "sessions store' = sessions store \<and> words store' = words store
      \<and> quizzes store' = quizzes store"
    using assms(2)
    by (auto simp: register_def register_user_def get_db_def close_db_def commit_def Let_def
        and_then_Inr split: sum.splits prod.splits if_splits)
  with assms(1) show ?thesis by (simp add: references_ok_def)
qed

end
